theory Spec2Isabelle
  imports Main
begin

section \<open>JavaScript strings and values\<close>

text \<open>
  Strings are character lists. The helpers below are the string methods the executor and
  the result handler call: \<^verbatim>\<open>startsWith\<close>, \<^verbatim>\<open>includes\<close>, \<^verbatim>\<open>replace\<close> with a string
  pattern (first occurrence only) and the regular-expression class \<^verbatim>\<open>\w\<close>.
\<close>

definition isWordChar :: "char \<Rightarrow> bool" where
  \<comment> \<open>\<^verbatim>\<open>\w\<close> without the unicode flag: \<^verbatim>\<open>[A-Za-z0-9_]\<close>\<close>
  "isWordChar c =
     (let n = (of_char c :: nat)
      in (97 \<le> n \<and> n \<le> 122) \<or> (65 \<le> n \<and> n \<le> 90) \<or> (48 \<le> n \<and> n \<le> 57) \<or> n = 95)"

fun startsWith :: "string \<Rightarrow> string \<Rightarrow> bool" where
  "startsWith s [] = True"
| "startsWith [] (p # ps) = False"
| "startsWith (c # cs) (p # ps) = (c = p \<and> startsWith cs ps)"

fun includesStr :: "string \<Rightarrow> string \<Rightarrow> bool" where
  \<comment> \<open>\<^verbatim>\<open>s.includes(t)\<close>\<close>
  "includesStr [] t = (t = [])"
| "includesStr (c # cs) t = (startsWith (c # cs) t \<or> includesStr cs t)"

fun replaceFirst :: "string \<Rightarrow> string \<Rightarrow> string \<Rightarrow> string" where
  \<comment> \<open>\<^verbatim>\<open>s.replace(pat, rep)\<close> with a string pattern: the first occurrence only\<close>
  "replaceFirst [] pat rep = (if pat = [] then rep else [])"
| "replaceFirst (c # cs) pat rep =
     (if startsWith (c # cs) pat then rep @ drop (length pat) (c # cs)
      else c # replaceFirst cs pat rep)"

definition replaceAllChar :: "char \<Rightarrow> string \<Rightarrow> string \<Rightarrow> string" where
  \<comment> \<open>\<^verbatim>\<open>s.replace(/c/g, rep)\<close> for a single-character pattern\<close>
  "replaceAllChar c rep s = concat (map (\<lambda>x. if x = c then rep else [x]) s)"

fun showNat :: "nat \<Rightarrow> string" where
  "showNat n = (if n < 10 then [''0123456789'' ! n] else showNat (n div 10) @ [''0123456789'' ! (n mod 10)])"

declare showNat.simps [simp del]

definition showInt :: "int \<Rightarrow> string" where
  \<comment> \<open>an integer in decimal digits\<close>
  "showInt i = (if i < 0 then CHR ''-'' # showNat (nat (- i)) else showNat (nat i))"

text \<open>
  Test data is a \<^verbatim>\<open>Record<string, any>\<close>. Substitution looks at a value in two ways only:
  it compares it with \<^verbatim>\<open>undefined\<close> and it applies \<^verbatim>\<open>String\<close> to it. So a value is
  modelled as far as \<^verbatim>\<open>String\<close> looks into it.

  A finite number is given the way \<^verbatim>\<open>Number::toString\<close> of ECMAScript reads it: its sign,
  the digits \<open>s\<close> of its shortest decimal form (without a trailing zero) and the position
  \<open>n\<close> of the decimal point, so that the number is \<open>s\<close> times ten to the power \<open>n - k\<close>, where \<open>k\<close> is
  the number of digits. Zero has \<open>s = 0\<close>. So 42 is \<open>Decimal False 42 2\<close>, 1.5 is \<open>Decimal False 15 1\<close> and
  \<^verbatim>\<open>1e21\<close> is \<open>Decimal False 1 22\<close>.
\<close>

datatype jsnumber = Decimal bool nat int | NotANumber | Infinity bool

definition numberText :: "jsnumber \<Rightarrow> string" where
  \<comment> \<open>\<^verbatim>\<open>Number::toString(x)\<close> in radix 10\<close>
  "numberText x =
     (case x of
        NotANumber \<Rightarrow> ''NaN''
      | Infinity neg \<Rightarrow> (if neg then ''-Infinity'' else ''Infinity'')
      | Decimal neg s n \<Rightarrow>
          (if s = 0 then ''0''
           else (if neg then ''-'' else []) @
             (let ds = showNat s; k = int (length ds)
              in if k \<le> n \<and> n \<le> 21 then ds @ replicate (nat (n - k)) CHR ''0''
                 else if 0 < n \<and> n \<le> 21 then take (nat n) ds @ ''.'' @ drop (nat n) ds
                 else if - 6 < n \<and> n \<le> 0 then ''0.'' @ replicate (nat (- n)) CHR ''0'' @ ds
                 else (if k = 1 then ds else take 1 ds @ ''.'' @ drop 1 ds)
                      @ ''e'' @ (if n - 1 < 0 then ''-'' else ''+'') @ showNat (nat \<bar>n - 1\<bar>))))"

text \<open>
  The values: the primitives; an array of values, with the conversion arrays have; a plain
  object whose own members are values that are not functions; and any other object (a
  function, a date, an instance of a class, an object that carries its own conversion),
  which is given by what converting it to a string does, the text returned or the value
  thrown. Anything can be thrown, so the two types are defined together. The handlers only
  ask whether a thrown value is an \<^verbatim>\<open>Error\<close> and, if so, read its message.
\<close>

datatype datum =
    DUndefined | DNull | DBool bool | DNum jsnumber | DBigInt int | DStr string | DSymbol string
  | DArr "datum list" | DObj "(string \<times> datum) list" | DOther "thrown + string"
and thrown = Error string | NonError datum

fun joinTexts :: "(thrown + string) list \<Rightarrow> thrown + string" where
  \<comment> \<open>the loop of \<^verbatim>\<open>Array.prototype.join\<close> with the separator \<^verbatim>\<open>,\<close>: the first throw ends it\<close>
  "joinTexts [] = Inr []"
| "joinTexts [x] = x"
| "joinTexts (x # y # ys) =
     (case x of
        Inl err \<Rightarrow> Inl err
      | Inr a \<Rightarrow> (case joinTexts (y # ys) of Inl err \<Rightarrow> Inl err | Inr b \<Rightarrow> Inr (a @ '','' @ b)))"

fun toText :: "datum \<Rightarrow> thrown + string" where
  \<comment> \<open>the abstract operation \<^verbatim>\<open>ToString\<close>; \<open>Inl\<close> is a throw\<close>
  "toText DUndefined = Inr ''undefined''"
| "toText DNull = Inr ''null''"
| "toText (DBool b) = Inr (if b then ''true'' else ''false'')"
| "toText (DNum x) = Inr (numberText x)"
| "toText (DBigInt i) = Inr (showInt i)"
| "toText (DStr s) = Inr s"
| "toText (DSymbol d) = Inl (Error ''Cannot convert a Symbol value to a string'')"
| "toText (DArr xs) =
     joinTexts (map (\<lambda>x. if x = DUndefined \<or> x = DNull then Inr [] else toText x) xs)"
| "toText (DObj ps) =
     (if ''toString'' \<in> fst ` set ps then Inl (Error ''Cannot convert object to primitive value'')
      else Inr ''[object Object]'')"
| "toText (DOther r) = r"

definition jsString :: "datum \<Rightarrow> thrown + string" where
  \<comment> \<open>\<^verbatim>\<open>String(v)\<close>: a symbol gives its description, everything else goes through \<^verbatim>\<open>ToString\<close>\<close>
  "jsString v = (case v of DSymbol d \<Rightarrow> Inr (''Symbol('' @ d @ '')'') | _ \<Rightarrow> toText v)"

text \<open>
  An object literal inherits the members of \<^verbatim>\<open>Object.prototype\<close>, and a property read
  \<^verbatim>\<open>data[key]\<close> returns them when the object has no own property of that name. All of them
  are functions, except \<^verbatim>\<open>__proto__\<close>, which reads as the prototype object itself.
\<close>

definition inheritedNames :: "string list" where
  "inheritedNames =
     [''constructor'', ''__defineGetter__'', ''__defineSetter__'', ''hasOwnProperty'',
      ''__lookupGetter__'', ''__lookupSetter__'', ''isPrototypeOf'', ''propertyIsEnumerable'',
      ''toString'', ''valueOf'', ''__proto__'', ''toLocaleString'']"

text \<open>
  A plain object is the list of its own properties in creation order, with distinct keys.
  Writing a property replaces the value of an existing key in place and appends a new
  key at the end; an object literal with spreads copies the own properties of each
  operand in turn.
\<close>

fun setProp :: "string \<Rightarrow> 'v \<Rightarrow> (string \<times> 'v) list \<Rightarrow> (string \<times> 'v) list" where
  "setProp k v [] = [(k, v)]"
| "setProp k v (p # ps) = (if fst p = k then (k, v) # ps else p # setProp k v ps)"

definition spreadInto :: "(string \<times> 'v) list \<Rightarrow> (string \<times> 'v) list \<Rightarrow> (string \<times> 'v) list" where
  \<comment> \<open>the properties of \<open>src\<close> written, in order, onto \<open>target\<close>\<close>
  "spreadInto target src = fold (\<lambda>p acc. setProp (fst p) (snd p) acc) src target"

type_synonym dict = "(string \<times> datum) list"

definition inheritedText :: "string \<Rightarrow> string" where
  \<comment> \<open>\<^verbatim>\<open>String\<close> of the member of \<^verbatim>\<open>Object.prototype\<close> with the given name\<close>
  "inheritedText k =
     (if k = ''__proto__'' then ''[object Object]''
      else if k = ''constructor'' then ''function Object() { [native code] }''
      else ''function '' @ k @ ''() { [native code] }'')"

definition getMember :: "dict \<Rightarrow> string \<Rightarrow> datum" where
  \<comment> \<open>\<^verbatim>\<open>data[key]\<close> on an object created by an object literal\<close>
  "getMember d k =
     (case map_of d k of
        Some v \<Rightarrow> v
      | None \<Rightarrow> (if k \<in> set inheritedNames then DOther (Inr (inheritedText k)) else DUndefined))"

definition mergeData :: "dict \<Rightarrow> dict option \<Rightarrow> dict" where
  \<comment> \<open>\<^verbatim>\<open>{ ...testData, ...data }\<close>; spreading \<^verbatim>\<open>undefined\<close> adds nothing\<close>
  "mergeData testData dataOpt =
     (case dataOpt of
        None \<Rightarrow> spreadInto [] testData
      | Some d \<Rightarrow> spreadInto (spreadInto [] testData) d)"

section \<open>Placeholder substitution\<close>

text \<open>
  \<^verbatim>\<open>value.replace(/\{\{(\w+)\}\}/g, (match, key) => ...)\<close> scans the string from the left.
  At each position the pattern matches two opening braces, the longest non-empty run of
  word characters and two closing braces; a shorter run cannot match, because the character
  after it would be a word character. After a match the scan goes on behind it and the
  replacement text is not scanned again. The callback runs for the matches from left to
  right, and a throw inside it ends the whole replacement.
\<close>

definition thenText :: "thrown + string \<Rightarrow> thrown + string \<Rightarrow> thrown + string" where
  \<comment> \<open>one piece of the result, then the pieces after it: the first throw wins\<close>
  "thenText a b =
     (case a of
        Inl err \<Rightarrow> Inl err
      | Inr x \<Rightarrow> (case b of Inl err \<Rightarrow> Inl err | Inr y \<Rightarrow> Inr (x @ y)))"

definition matchPlaceholder :: "string \<Rightarrow> (string \<times> string) option" where
  "matchPlaceholder s =
     (case s of
        c1 # c2 # t \<Rightarrow>
          (if c1 = CHR ''{'' \<and> c2 = CHR ''{'' \<and> takeWhile isWordChar t \<noteq> [] then
             (case dropWhile isWordChar t of
                d1 # d2 # rest \<Rightarrow>
                  (if d1 = CHR ''}'' \<and> d2 = CHR ''}'' then Some (takeWhile isWordChar t, rest)
                   else None)
              | _ \<Rightarrow> None)
           else None)
      | _ \<Rightarrow> None)"

lemma matchPlaceholder_shorter:
  "matchPlaceholder s = Some (k, rest) \<Longrightarrow> length rest < length s"
proof -
  assume m: "matchPlaceholder s = Some (k, rest)"
  then obtain c1 c2 t where s: "s = c1 # c2 # t"
    by (cases s rule: list.exhaust; simp add: matchPlaceholder_def split: list.splits)
  from m s obtain d1 d2 where "dropWhile isWordChar t = d1 # d2 # rest"
    by (auto simp: matchPlaceholder_def split: list.splits if_splits)
  then have "length rest < length (dropWhile isWordChar t)" by simp
  also have "\<dots> \<le> length t" by (rule length_dropWhile_le)
  finally show ?thesis using s by simp
qed

function replacePlaceholders :: "(string \<Rightarrow> string \<Rightarrow> thrown + string) \<Rightarrow> string \<Rightarrow> thrown + string" where
  "replacePlaceholders f [] = Inr []"
| "replacePlaceholders f (c # cs) =
     (case matchPlaceholder (c # cs) of
        Some (k, rest) \<Rightarrow> thenText (f (''{{'' @ k @ ''}}'') k) (replacePlaceholders f rest)
      | None \<Rightarrow> thenText (Inr [c]) (replacePlaceholders f cs))"
  by pat_completeness auto
termination
  by (relation "measure (\<lambda>(f, s). length s)") (auto dest: matchPlaceholder_shorter)

definition resolveValue :: "string \<Rightarrow> dict \<Rightarrow> thrown + string" where
  "resolveValue v d =
     replacePlaceholders
       (\<lambda>match key. if getMember d key \<noteq> DUndefined then jsString (getMember d key) else Inr match) v"

section \<open>Error messages and result objects\<close>

definition messageOr :: "string \<Rightarrow> thrown \<Rightarrow> string" where
  \<comment> \<open>\<^verbatim>\<open>err instanceof Error ? err.message : dflt\<close>\<close>
  "messageOr dflt err = (case err of Error m \<Rightarrow> m | NonError v \<Rightarrow> dflt)"

text \<open>
  \<^verbatim>\<open>StepResult\<close> and \<^verbatim>\<open>TestResult\<close> are interfaces over plain objects: the code
  builds them with object literals, attaches \<^verbatim>\<open>error\<close> and \<^verbatim>\<open>browserInfo\<close> afterwards and
  copies them with a spread. They are modelled as property lists over the values below.
\<close>

datatype jsval =
    Undefined | Null | Bool bool | Num int | Str string | DateV int
  | Arr "jsval list" | Obj "(string \<times> jsval) list"

type_synonym jsobj = "(string \<times> jsval) list"

definition getProp :: "jsobj \<Rightarrow> string \<Rightarrow> jsval" where
  \<comment> \<open>\<^verbatim>\<open>obj.key\<close> for the keys the code reads, none of which names an inherited member\<close>
  "getProp obj k = (case map_of obj k of Some v \<Rightarrow> v | None \<Rightarrow> Undefined)"

definition truthy :: "jsval \<Rightarrow> bool" where
  "truthy v =
     (case v of
        Undefined \<Rightarrow> False | Null \<Rightarrow> False | Bool b \<Rightarrow> b | Num n \<Rightarrow> n \<noteq> 0
      | Str s \<Rightarrow> s \<noteq> [] | DateV t \<Rightarrow> True | Arr xs \<Rightarrow> True | Obj ps \<Rightarrow> True)"

definition numberOf :: "jsval \<Rightarrow> int" where
  \<comment> \<open>reads a field that the interface types as \<^verbatim>\<open>number\<close>\<close>
  "numberOf v = (case v of Num n \<Rightarrow> n | _ \<Rightarrow> 0)"

definition stringOr :: "string \<Rightarrow> jsval \<Rightarrow> string" where
  \<comment> \<open>\<^verbatim>\<open>v || dflt\<close> for a field that the interface types as \<^verbatim>\<open>string | undefined\<close>\<close>
  "stringOr dflt v = (case v of Str s \<Rightarrow> (if s = [] then dflt else s) | _ \<Rightarrow> dflt)"

definition templateText :: "jsval \<Rightarrow> string" where
  \<comment> \<open>a field that the interface types as \<^verbatim>\<open>string\<close>, inside a template literal\<close>
  "templateText v =
     (case v of
        Str s \<Rightarrow> s
      | Num n \<Rightarrow> showInt n
      | Bool b \<Rightarrow> (if b then ''true'' else ''false'')
      | Null \<Rightarrow> ''null''
      | _ \<Rightarrow> ''undefined'')"

section \<open>Test cases and options\<close>

record TestStep =
  step :: int
  action :: string
  expected :: string
  element :: "string option"
  data :: "dict option"

datatype CaseType = UI_WORKFLOW | API_CONTRACT | PERFORMANCE
datatype Priority = LOW | MEDIUM | HIGH | CRITICAL
datatype Lifecycle = ACTIVE | DISABLED | DEPRECATED

record TestCase =
  caseId :: string
  moduleId :: string
  title :: string
  caseType :: CaseType
  priority :: Priority
  steps :: "TestStep list"
  testData :: dict
  expectedResults :: "string list"
  dependencies :: "string list"
  lifecycle :: Lifecycle
  createdAt :: int
  updatedAt :: int

record ExecutionOptions =
  captureOnSuccess :: "bool option"
  stopOnFailure :: "bool option"
  delayBetweenTests :: "int option"
  optMaxRetries :: "int option"
  parallel :: "(bool \<times> int option) option"

definition hasSelector :: "string option \<Rightarrow> bool" where
  \<comment> \<open>truthiness of \<^verbatim>\<open>element\<close>: neither \<^verbatim>\<open>undefined\<close> nor the empty string\<close>
  "hasSelector e = (case e of None \<Rightarrow> False | Some sel \<Rightarrow> sel \<noteq> [])"

section \<open>The browser driver boundary\<close>

text \<open>
  The browser is outside the program. Its state is a value of an arbitrary type \<open>'w\<close>, and
  a driver says what each call the executor makes returns and how it changes that state.
  Handles are numbers. \<^verbatim>\<open>Date.now()\<close> reads the clock off the state, and \<^verbatim>\<open>parseInt\<close>
  is the runtime's (\<open>None\<close> is \<^verbatim>\<open>NaN\<close>).
\<close>

datatype pageOp =
    Goto string
  | Click string
  | Fill string string
  | TypeText string string
  | SelectOption string string
  | WaitForTimeout "int option"
  | WaitForSelector string
  | WaitForLoadState string
  | ScrollIntoViewIfNeeded string
  | ScrollToBottom
  | Hover string
  | KeyboardPress string
  | LocatorWaitFor string "string option"
  | Screenshot string bool

record 'w Driver =
  pageCall :: "nat \<Rightarrow> pageOp \<Rightarrow> 'w \<Rightarrow> thrown option \<times> 'w"
  pageUrl :: "nat \<Rightarrow> 'w \<Rightarrow> string"
  pageTitle :: "nat \<Rightarrow> 'w \<Rightarrow> (thrown + string) \<times> 'w"
  textContent :: "nat \<Rightarrow> string \<Rightarrow> 'w \<Rightarrow> (thrown + string option) \<times> 'w"
  evaluateTestLogs :: "nat \<Rightarrow> 'w \<Rightarrow> (thrown + jsval) \<times> 'w"
  closePage :: "nat \<Rightarrow> 'w \<Rightarrow> thrown option \<times> 'w"
  closeContext :: "nat \<Rightarrow> 'w \<Rightarrow> thrown option \<times> 'w"
  closeBrowser :: "nat \<Rightarrow> 'w \<Rightarrow> thrown option \<times> 'w"
  dateNow :: "'w \<Rightarrow> int"
  parseInt :: "string \<Rightarrow> int option"

record Runtime =
  envVars :: "(string \<times> string) list"
  platform :: string

definition envOr :: "Runtime \<Rightarrow> string \<Rightarrow> string \<Rightarrow> string" where
  \<comment> \<open>\<^verbatim>\<open>process.env.NAME || dflt\<close>\<close>
  "envOr rt name dflt =
     (case map_of (envVars rt) name of None \<Rightarrow> dflt | Some v \<Rightarrow> (if v = [] then dflt else v))"

section \<open>The result handler\<close>

text \<open>
  A listener is what the handler sees of it: it returns or it throws. The executor's own
  handler is built with no listeners.
\<close>

record Events =
  onTestComplete :: "(jsval \<Rightarrow> jsobj \<Rightarrow> thrown option) option"
  onTestFailure :: "(jsval \<Rightarrow> string \<Rightarrow> thrown option) option"

record Handler =
  events :: Events
  results :: "jsobj list"
  handlerStartTime :: int

definition newHandler :: "int \<Rightarrow> Handler" where
  \<comment> \<open>\<^verbatim>\<open>new TestResultHandler()\<close> at time \<open>now\<close>\<close>
  "newHandler now =
     \<lparr>events = \<lparr>onTestComplete = None, onTestFailure = None\<rparr>, results = [], handlerStartTime = now\<rparr>"

definition getBrowserInfo :: "Runtime \<Rightarrow> jsval" where
  "getBrowserInfo rt =
     Obj [(''name'', Str (envOr rt ''PLAYWRIGHT_BROWSER'' ''chromium'')),
          (''version'', Str (envOr rt ''PLAYWRIGHT_VERSION'' ''unknown'')),
          (''headless'', Bool (map_of (envVars rt) ''PLAYWRIGHT_HEADLESS'' \<noteq> Some ''false''))]"

definition fireComplete :: "Events \<Rightarrow> jsobj \<Rightarrow> thrown option" where
  "fireComplete ev result =
     (case onTestComplete ev of
        None \<Rightarrow> None
      | Some listener \<Rightarrow> listener (getProp result ''testCaseId'') result)"

definition fireFailure :: "Events \<Rightarrow> jsobj \<Rightarrow> thrown option" where
  "fireFailure ev result =
     (if getProp result ''status'' = Str ''FAILED'' then
        (case onTestFailure ev of
           None \<Rightarrow> None
         | Some listener \<Rightarrow>
             listener (getProp result ''testCaseId'') (stringOr ''Test failed'' (getProp result ''error'')))
      else None)"

definition enhance :: "Runtime \<Rightarrow> int \<Rightarrow> jsobj \<Rightarrow> jsobj" where
  \<comment> \<open>\<^verbatim>\<open>{ ...result, executedAt: new Date() }\<close>, then \<^verbatim>\<open>browserInfo\<close> is assigned\<close>
  "enhance rt now result =
     setProp ''browserInfo'' (getBrowserInfo rt)
       (setProp ''executedAt'' (DateV now) (spreadInto [] result))"

definition processResult :: "Runtime \<Rightarrow> int \<Rightarrow> jsobj \<Rightarrow> Handler \<Rightarrow> (thrown + jsobj) \<times> Handler" where
  "processResult rt now result h =
     (let h1 = h\<lparr>results := results h @ [result]\<rparr>
      in case fireComplete (events h1) result of
           Some err \<Rightarrow> (Inl err, h1)
         | None \<Rightarrow>
             (case fireFailure (events h1) result of
                Some err \<Rightarrow> (Inl err, h1)
              | None \<Rightarrow> (Inr (enhance rt now result), h1)))"

record Environment =
  env_browser :: string
  env_version :: string
  env_platform :: string

record TestSummary =
  total :: nat
  passed :: nat
  failed :: nat
  skipped :: nat
  flaky :: nat
  duration :: int
  startTime :: int
  endTime :: int
  environment :: Environment

definition countStatus :: "string \<Rightarrow> jsobj list \<Rightarrow> nat" where
  \<comment> \<open>\<^verbatim>\<open>results.filter(r => r.status === s).length\<close>\<close>
  "countStatus s rs = length (filter (\<lambda>r. getProp r ''status'' = Str s) rs)"

definition generateSummary :: "Runtime \<Rightarrow> int \<Rightarrow> jsobj list option \<Rightarrow> Handler \<Rightarrow> TestSummary" where
  \<comment> \<open>the argument defaults to \<^verbatim>\<open>this.results\<close>; \<open>now\<close> is the clock at the call\<close>
  "generateSummary rt now arg h =
     (let rs = (case arg of None \<Rightarrow> results h | Some given \<Rightarrow> given)
      in \<lparr>total = length rs,
          passed = countStatus ''PASSED'' rs,
          failed = countStatus ''FAILED'' rs,
          skipped = countStatus ''SKIPPED'' rs,
          flaky = countStatus ''FLAKY'' rs,
          duration = foldl (\<lambda>sum result. sum + numberOf (getProp result ''duration'')) 0 rs,
          startTime = handlerStartTime h,
          endTime = now,
          environment =
            \<lparr>env_browser = envOr rt ''PLAYWRIGHT_BROWSER'' ''chromium'',
             env_version = envOr rt ''PLAYWRIGHT_VERSION'' ''unknown'',
             env_platform = platform rt\<rparr>\<rparr>)"

subsection \<open>JUnit export\<close>

definition escapeXml :: "string \<Rightarrow> string" where
  "escapeXml str =
     replaceAllChar (CHR 0x27) ''&apos;''
       (replaceAllChar (CHR 0x22) ''&quot;''
         (replaceAllChar CHR ''>'' ''&gt;''
           (replaceAllChar CHR ''<'' ''&lt;''
             (replaceAllChar CHR ''&'' ''&amp;'' str))))"

definition pad3 :: "nat \<Rightarrow> string" where
  "pad3 n = (if n < 10 then ''00'' @ showNat n else if n < 100 then ''0'' @ showNat n else showNat n)"

definition toFixed3 :: "int \<Rightarrow> string" where
  \<comment> \<open>\<^verbatim>\<open>(ms / 1000).toFixed(3)\<close> for a whole number of milliseconds\<close>
  "toFixed3 ms =
     (let a = nat \<bar>ms\<bar>
      in (if ms < 0 then ''-'' else []) @ showNat (a div 1000) @ ''.'' @ pad3 (a mod 1000))"

definition junitTestCase :: "jsobj \<Rightarrow> string" where
  "junitTestCase result =
     ''<testcase name='' @ [CHR 0x22] @ templateText (getProp result ''testCaseId'') @ [CHR 0x22]
       @ '' time='' @ [CHR 0x22] @ toFixed3 (numberOf (getProp result ''duration'')) @ [CHR 0x22] @ ''>''
       @ (if getProp result ''status'' = Str ''FAILED'' then
            ''<failure message='' @ [CHR 0x22]
              @ escapeXml (stringOr ''Test failed'' (getProp result ''error'')) @ [CHR 0x22] @ ''>''
              @ escapeXml (stringOr [] (getProp result ''error'')) @ ''</failure>''
          else if getProp result ''status'' = Str ''SKIPPED'' then ''<skipped/>''
          else [])
       @ ''</testcase>''"

fun joinWith :: "string \<Rightarrow> string list \<Rightarrow> string" where
  "joinWith sep [] = []"
| "joinWith sep [x] = x"
| "joinWith sep (x # y # ys) = x @ sep @ joinWith sep (y # ys)"

definition generateJunitXml :: "TestSummary \<Rightarrow> jsobj list \<Rightarrow> string" where
  "generateJunitXml summary rs =
     ''<?xml version='' @ [CHR 0x22] @ ''1.0'' @ [CHR 0x22] @ '' encoding='' @ [CHR 0x22] @ ''UTF-8''
       @ [CHR 0x22] @ ''?>'' @ [CHR 0x0A]
       @ ''<testsuite name='' @ [CHR 0x22] @ ''AI Testing Agent'' @ [CHR 0x22]
       @ '' tests='' @ [CHR 0x22] @ showNat (total summary) @ [CHR 0x22]
       @ '' failures='' @ [CHR 0x22] @ showNat (failed summary) @ [CHR 0x22]
       @ '' skipped='' @ [CHR 0x22] @ showNat (skipped summary) @ [CHR 0x22]
       @ '' time='' @ [CHR 0x22] @ toFixed3 (duration summary) @ [CHR 0x22] @ ''>'' @ [CHR 0x0A]
       @ joinWith [CHR 0x0A] (map junitTestCase rs) @ [CHR 0x0A]
       @ ''</testsuite>''"

section \<open>The executor\<close>

record 'w Executor =
  browser :: "nat option"
  browserContext :: "nat option"
  page :: "nat option"
  resultHandler :: Handler
  world :: 'w

definition onPage :: "'w Driver \<Rightarrow> nat \<Rightarrow> pageOp \<Rightarrow> 'w Executor \<Rightarrow> thrown option \<times> 'w Executor" where
  \<comment> \<open>an awaited call on the page: it returns, or it throws\<close>
  "onPage D p c st = (case pageCall D p c (world st) of (r, w) \<Rightarrow> (r, st\<lparr>world := w\<rparr>))"

definition isSpaceChar :: "char \<Rightarrow> bool" where
  "isSpaceChar c = (let n = (of_char c :: nat) in (9 \<le> n \<and> n \<le> 13) \<or> n = 32)"

definition jsTrim :: "string \<Rightarrow> string" where
  \<comment> \<open>\<^verbatim>\<open>s.trim()\<close> on ASCII white space\<close>
  "jsTrim s = rev (dropWhile isSpaceChar (rev (dropWhile isSpaceChar s)))"

subsection \<open>Assertions\<close>

definition assertElement :: "'w Driver \<Rightarrow> nat \<Rightarrow> string \<Rightarrow> string \<Rightarrow> 'w Executor \<Rightarrow> thrown option \<times> 'w Executor" where
  "assertElement D p sel expectedValue st =
     (if expectedValue = ''visible'' then onPage D p (LocatorWaitFor sel (Some ''visible'')) st
      else if expectedValue = ''hidden'' then onPage D p (LocatorWaitFor sel (Some ''hidden'')) st
      else
        (case onPage D p (LocatorWaitFor sel None) st of
           (Some err, st1) \<Rightarrow> (Some err, st1)
         | (None, st1) \<Rightarrow>
             (case textContent D p sel (world st1) of
                (Inl err, w2) \<Rightarrow> (Some err, st1\<lparr>world := w2\<rparr>)
              | (Inr actualText, w2) \<Rightarrow>
                  (if map_option jsTrim actualText \<noteq> Some expectedValue then
                     (Some (Error (''Expected '' @ [CHR 0x22] @ expectedValue @ [CHR 0x22] @ '' but got ''
                        @ [CHR 0x22] @ (case actualText of None \<Rightarrow> ''null'' | Some t \<Rightarrow> t) @ [CHR 0x22])),
                      st1\<lparr>world := w2\<rparr>)
                   else (None, st1\<lparr>world := w2\<rparr>)))))"

definition assertPage :: "'w Driver \<Rightarrow> nat \<Rightarrow> string \<Rightarrow> 'w Executor \<Rightarrow> thrown option \<times> 'w Executor" where
  \<comment> \<open>the branch without a selector: URL or title\<close>
  "assertPage D p expectedValue st =
     (if startsWith expectedValue ''url:'' then
        (let expectedUrl = replaceFirst expectedValue ''url:'' [];
             currentUrl = pageUrl D p (world st)
         in if \<not> includesStr currentUrl expectedUrl then
              (Some (Error (''Expected URL to contain '' @ [CHR 0x22] @ expectedUrl @ [CHR 0x22]
                 @ '' but got '' @ [CHR 0x22] @ currentUrl @ [CHR 0x22])), st)
            else (None, st))
      else if startsWith expectedValue ''title:'' then
        (let expectedTitle = replaceFirst expectedValue ''title:'' []
         in case pageTitle D p (world st) of
              (Inl err, w1) \<Rightarrow> (Some err, st\<lparr>world := w1\<rparr>)
            | (Inr actualTitle, w1) \<Rightarrow>
                (if \<not> includesStr actualTitle expectedTitle then
                   (Some (Error (''Expected title to contain '' @ [CHR 0x22] @ expectedTitle @ [CHR 0x22]
                      @ '' but got '' @ [CHR 0x22] @ actualTitle @ [CHR 0x22])), st\<lparr>world := w1\<rparr>)
                 else (None, st\<lparr>world := w1\<rparr>)))
      else (None, st))"

definition performAssertion :: "'w Driver \<Rightarrow> TestStep \<Rightarrow> dict \<Rightarrow> 'w Executor \<Rightarrow> thrown option \<times> 'w Executor" where
  "performAssertion D stp td st =
     (case page st of
        None \<Rightarrow> (Some (Error ''Page not available''), st)
      | Some p \<Rightarrow>
          (case resolveValue (expected stp) td of
             Inl err \<Rightarrow> (Some err, st)
           | Inr expectedValue \<Rightarrow>
               (case element stp of
                  None \<Rightarrow> assertPage D p expectedValue st
                | Some sel \<Rightarrow>
                    (if sel \<noteq> [] then assertElement D p sel expectedValue st
                     else assertPage D p expectedValue st))))"

subsection \<open>Actions\<close>

definition requireSelector :: "string \<Rightarrow> TestStep \<Rightarrow> thrown + string" where
  \<comment> \<open>\<^verbatim>\<open>if (!element) throw new Error('Element selector required for ... action')\<close>\<close>
  "requireSelector name stp =
     (case element stp of
        None \<Rightarrow> Inl (Error (''Element selector required for '' @ name @ '' action''))
      | Some sel \<Rightarrow>
          (if sel \<noteq> [] then Inr sel
           else Inl (Error (''Element selector required for '' @ name @ '' action''))))"

definition withSelector :: "string \<Rightarrow> TestStep \<Rightarrow> (string \<Rightarrow> 'w Executor \<Rightarrow> thrown option \<times> 'w Executor)
    \<Rightarrow> 'w Executor \<Rightarrow> thrown option \<times> 'w Executor" where
  \<comment> \<open>the selector check, then the rest of the branch\<close>
  "withSelector name stp go st =
     (case requireSelector name stp of
        Inl err \<Rightarrow> (Some err, st)
      | Inr sel \<Rightarrow> go sel st)"

definition withResolved :: "string \<Rightarrow> dict \<Rightarrow> (string \<Rightarrow> 'w Executor \<Rightarrow> thrown option \<times> 'w Executor)
    \<Rightarrow> 'w Executor \<Rightarrow> thrown option \<times> 'w Executor" where
  \<comment> \<open>\<^verbatim>\<open>this.resolveValue(step.expected, mergedData)\<close>, then the call that takes the result\<close>
  "withResolved v d go st =
     (case resolveValue v d of
        Inl err \<Rightarrow> (Some err, st)
      | Inr resolved \<Rightarrow> go resolved st)"

definition performAction :: "'w Driver \<Rightarrow> TestStep \<Rightarrow> dict \<Rightarrow> 'w Executor \<Rightarrow> thrown option \<times> 'w Executor" where
  "performAction D stp td st =
     (case page st of
        None \<Rightarrow> (Some (Error ''Page not available''), st)
      | Some p \<Rightarrow>
          (let mergedData = mergeData td (data stp);
               a = action stp;
               resolved = withResolved (expected stp) mergedData
           in if a = ''navigate'' then resolved (\<lambda>url. onPage D p (Goto url)) st
              else if a = ''click'' then withSelector ''click'' stp (\<lambda>sel. onPage D p (Click sel)) st
              else if a = ''fill'' then
                withSelector ''fill'' stp (\<lambda>sel. resolved (\<lambda>v. onPage D p (Fill sel v))) st
              else if a = ''type'' then
                withSelector ''type'' stp (\<lambda>sel. resolved (\<lambda>v. onPage D p (TypeText sel v))) st
              else if a = ''select'' then
                withSelector ''select'' stp (\<lambda>sel. resolved (\<lambda>v. onPage D p (SelectOption sel v))) st
              else if a = ''wait'' then resolved (\<lambda>v. onPage D p (WaitForTimeout (parseInt D v))) st
              else if a = ''waitForElement'' then
                withSelector ''waitForElement'' stp (\<lambda>sel. onPage D p (WaitForSelector sel)) st
              else if a = ''waitForNavigation'' then onPage D p (WaitForLoadState ''networkidle'') st
              else if a = ''assert'' then performAssertion D stp mergedData st
              else if a = ''scroll'' then
                (case element stp of
                   None \<Rightarrow> onPage D p ScrollToBottom st
                 | Some sel \<Rightarrow>
                     (if sel \<noteq> [] then onPage D p (ScrollIntoViewIfNeeded sel) st
                      else onPage D p ScrollToBottom st))
              else if a = ''hover'' then withSelector ''hover'' stp (\<lambda>sel. onPage D p (Hover sel)) st
              else if a = ''keyPress'' then resolved (\<lambda>k. onPage D p (KeyboardPress k)) st
              else (Some (Error (''Unsupported action: '' @ a)), st)))"

subsection \<open>Steps and cases\<close>

definition executeStep :: "'w Driver \<Rightarrow> TestStep \<Rightarrow> dict \<Rightarrow> 'w Executor \<Rightarrow> jsobj \<times> 'w Executor" where
  "executeStep D stp td st =
     (let t0 = dateNow D (world st)
      in case performAction D stp td st of
           (r, st1) \<Rightarrow>
             (let status = (case r of None \<Rightarrow> ''PASSED'' | Some err \<Rightarrow> ''FAILED'');
                  error = (case r of None \<Rightarrow> Undefined
                           | Some err \<Rightarrow> Str (messageOr ''Step execution failed'' err));
                  stepResult = [(''step'', Num (step stp)), (''status'', Str status),
                                (''duration'', Num (dateNow D (world st1) - t0))]
              in (if truthy error then setProp ''error'' error stepResult else stepResult, st1)))"

text \<open>
  The loop over the steps, with the three variables it writes: the step results, the status
  and the error. \<^verbatim>\<open>executeStep\<close> catches whatever the action throws, so the
  \<^verbatim>\<open>catch\<close> around the loop has nothing to catch.
\<close>

fun stepLoop :: "'w Driver \<Rightarrow> dict \<Rightarrow> TestStep list \<Rightarrow> jsobj list \<Rightarrow> 'w Executor
    \<Rightarrow> (jsobj list \<times> string \<times> jsval) \<times> 'w Executor" where
  "stepLoop D td [] stepResults st = ((stepResults, ''PASSED'', Undefined), st)"
| "stepLoop D td (stp # rest) stepResults st =
     (case executeStep D stp td st of
        (stepResult, st1) \<Rightarrow>
          (if getProp stepResult ''status'' = Str ''FAILED'' then
             ((stepResults @ [stepResult], ''FAILED'', getProp stepResult ''error''), st1)
           else stepLoop D td rest (stepResults @ [stepResult]) st1))"

definition captureArtifacts :: "'w Driver \<Rightarrow> string \<Rightarrow> bool option \<Rightarrow> 'w Executor \<Rightarrow> jsobj \<times> 'w Executor" where
  \<comment> \<open>the parameter \<^verbatim>\<open>capture\<close> defaults to true when the argument is \<^verbatim>\<open>undefined\<close>\<close>
  "captureArtifacts D testCaseId captureArg st =
     (let capture = (case captureArg of None \<Rightarrow> True | Some b \<Rightarrow> b)
      in case page st of
           None \<Rightarrow> ([], st)
         | Some p \<Rightarrow>
             (if \<not> capture then ([], st)
              else
                (let screenshotPath = ''./test-results/screenshots/'' @ testCaseId @ ''-''
                       @ showInt (dateNow D (world st)) @ ''.png''
                 in case onPage D p (Screenshot screenshotPath True) st of
                      (Some err, st1) \<Rightarrow> ([], st1)
                    | (None, st1) \<Rightarrow>
                        (case evaluateTestLogs D p (world st1) of
                           (Inl err, w2) \<Rightarrow> ([(''screenshot'', Str screenshotPath)], st1\<lparr>world := w2\<rparr>)
                         | (Inr logs, w2) \<Rightarrow>
                             ([(''screenshot'', Str screenshotPath), (''logs'', logs)],
                              st1\<lparr>world := w2\<rparr>)))))"

definition buildResult :: "string \<Rightarrow> string \<Rightarrow> int \<Rightarrow> jsobj list \<Rightarrow> jsobj \<Rightarrow> int \<Rightarrow> jsval \<Rightarrow> jsobj" where
  \<comment> \<open>the object literal of \<^verbatim>\<open>executeTestCase\<close>, then \<^verbatim>\<open>if (error) result.error = error\<close>\<close>
  "buildResult testCaseId status ms stepResults artifacts now error =
     (let result = [(''testCaseId'', Str testCaseId), (''status'', Str status),
                    (''duration'', Num ms),
                    (''stepResults'', Arr (map Obj stepResults)),
                    (''artifacts'', Obj artifacts),
                    (''executedAt'', DateV now)]
      in if truthy error then setProp ''error'' error result else result)"

definition executeTestCase :: "'w Driver \<Rightarrow> Runtime \<Rightarrow> TestCase \<Rightarrow> ExecutionOptions \<Rightarrow> 'w Executor
    \<Rightarrow> (thrown + jsobj) \<times> 'w Executor" where
  "executeTestCase D rt testCase options st =
     (case page st of
        None \<Rightarrow> (Inl (Error ''Browser not initialized. Call initialize() first.''), st)
      | Some p \<Rightarrow>
          (let t0 = dateNow D (world st)
           in case stepLoop D (testData testCase) (steps testCase) [] st of
                ((stepResults, status, error), st1) \<Rightarrow>
                  (let duration = dateNow D (world st1) - t0
                   in case captureArtifacts D (caseId testCase)
                             (if status = ''FAILED'' then Some True else captureOnSuccess options) st1 of
                        (artifacts, st2) \<Rightarrow>
                          (let result = buildResult (caseId testCase) status duration stepResults artifacts
                                          (dateNow D (world st2)) error
                           in case processResult rt (dateNow D (world st2)) result (resultHandler st2) of
                                (r, h) \<Rightarrow> (r, st2\<lparr>resultHandler := h\<rparr>)))))"

subsection \<open>Suites\<close>

definition betweenTests :: "'w Driver \<Rightarrow> ExecutionOptions \<Rightarrow> 'w Executor \<Rightarrow> thrown option \<times> 'w Executor" where
  \<comment> \<open>\<^verbatim>\<open>if (options.delayBetweenTests) await this.page?.waitForTimeout(...)\<close>, outside the try\<close>
  "betweenTests D options st =
     (case delayBetweenTests options of
        None \<Rightarrow> (None, st)
      | Some ms \<Rightarrow>
          (if ms = 0 then (None, st)
           else (case page st of
                   None \<Rightarrow> (None, st)
                 | Some p \<Rightarrow> onPage D p (WaitForTimeout (Some ms)) st)))"

definition failedResult :: "'w Driver \<Rightarrow> TestCase \<Rightarrow> thrown \<Rightarrow> 'w Executor \<Rightarrow> jsobj" where
  \<comment> \<open>the record pushed by the \<^verbatim>\<open>catch\<close> of the suite loop\<close>
  "failedResult D testCase err st =
     [(''testCaseId'', Str (caseId testCase)), (''status'', Str ''FAILED''), (''duration'', Num 0),
      (''error'', Str (messageOr ''Test execution failed'' err)),
      (''executedAt'', DateV (dateNow D (world st)))]"

fun suiteLoop :: "'w Driver \<Rightarrow> Runtime \<Rightarrow> ExecutionOptions \<Rightarrow> TestCase list \<Rightarrow> jsobj list \<Rightarrow> 'w Executor
    \<Rightarrow> (thrown + jsobj list) \<times> 'w Executor" where
  "suiteLoop D rt options [] rs st = (Inr rs, st)"
| "suiteLoop D rt options (testCase # rest) rs st =
     (case executeTestCase D rt testCase options st of
        (Inr result, st1) \<Rightarrow>
          (if getProp result ''status'' = Str ''FAILED'' \<and> stopOnFailure options = Some True then
             (Inr (rs @ [result]), st1)
           else
             (case betweenTests D options st1 of
                (Some err, st2) \<Rightarrow> (Inl err, st2)
              | (None, st2) \<Rightarrow> suiteLoop D rt options rest (rs @ [result]) st2))
      | (Inl err, st1) \<Rightarrow>
          (case betweenTests D options st1 of
             (Some err2, st2) \<Rightarrow> (Inl err2, st2)
           | (None, st2) \<Rightarrow> suiteLoop D rt options rest (rs @ [failedResult D testCase err st1]) st2))"

definition executeTestSuite :: "'w Driver \<Rightarrow> Runtime \<Rightarrow> TestCase list \<Rightarrow> ExecutionOptions \<Rightarrow> 'w Executor
    \<Rightarrow> (thrown + jsobj list) \<times> 'w Executor" where
  "executeTestSuite D rt testCases options st = suiteLoop D rt options testCases [] st"

subsection \<open>Cleanup\<close>

text \<open>
  One \<^verbatim>\<open>try\<close> holds the three closes; the \<^verbatim>\<open>catch\<close> logs and returns. \<open>Inl\<close> below is
  the jump to the \<^verbatim>\<open>catch\<close>, \<open>Inr\<close> the fall through to the next statement.
\<close>

definition releasePage :: "'w Driver \<Rightarrow> 'w Executor \<Rightarrow> 'w Executor + 'w Executor" where
  "releasePage D st =
     (case page st of
        None \<Rightarrow> Inr st
      | Some p \<Rightarrow>
          (case closePage D p (world st) of
             (Some err, w) \<Rightarrow> Inl (st\<lparr>world := w\<rparr>)
           | (None, w) \<Rightarrow> Inr (st\<lparr>world := w, page := None\<rparr>)))"

definition releaseContext :: "'w Driver \<Rightarrow> 'w Executor \<Rightarrow> 'w Executor + 'w Executor" where
  "releaseContext D st =
     (case browserContext st of
        None \<Rightarrow> Inr st
      | Some c \<Rightarrow>
          (case closeContext D c (world st) of
             (Some err, w) \<Rightarrow> Inl (st\<lparr>world := w\<rparr>)
           | (None, w) \<Rightarrow> Inr (st\<lparr>world := w, browserContext := None\<rparr>)))"

definition releaseBrowser :: "'w Driver \<Rightarrow> 'w Executor \<Rightarrow> 'w Executor + 'w Executor" where
  "releaseBrowser D st =
     (case browser st of
        None \<Rightarrow> Inr st
      | Some b \<Rightarrow>
          (case closeBrowser D b (world st) of
             (Some err, w) \<Rightarrow> Inl (st\<lparr>world := w\<rparr>)
           | (None, w) \<Rightarrow> Inr (st\<lparr>world := w, browser := None\<rparr>)))"

definition cleanup :: "'w Driver \<Rightarrow> 'w Executor \<Rightarrow> 'w Executor" where
  "cleanup D st =
     (case releasePage D st of
        Inl caught \<Rightarrow> caught
      | Inr st1 \<Rightarrow>
          (case releaseContext D st1 of
             Inl caught \<Rightarrow> caught
           | Inr st2 \<Rightarrow>
               (case releaseBrowser D st2 of
                  Inl caught \<Rightarrow> caught
                | Inr st3 \<Rightarrow> st3)))"

section \<open>The retry helper of the browser utilities\<close>

datatype Backoff = linear | exponential

record RetryConfig =
  maxRetries :: nat
  delay :: nat
  backoff :: Backoff

record UtilsConfig =
  defaultWaitTimeout :: "int option"
  retryConfig :: "RetryConfig option"

text \<open>
  An operation is an effectful thunk. Over one run it is the sequence of the outcomes of its
  successive invocations: \<open>operation n\<close> is what the invocation number \<open>n\<close> (from 0)
  returns or throws. The run leaves a trace of the invocations, the warnings and the pauses.
\<close>

datatype RetryEvent = Invoked | Warned nat nat | Waited nat

definition invocations :: "RetryEvent list \<Rightarrow> nat" where
  "invocations tr = length (filter (\<lambda>e. e = Invoked) tr)"

definition retryDelay :: "RetryConfig \<Rightarrow> nat \<Rightarrow> nat" where
  "retryDelay cfg attempt =
     (if backoff cfg = exponential then delay cfg * 2 ^ attempt else delay cfg)"

function retryLoop :: "RetryConfig \<Rightarrow> (nat \<Rightarrow> thrown + 'a) \<Rightarrow> nat \<Rightarrow> thrown \<Rightarrow> RetryEvent list
    \<Rightarrow> (thrown + 'a) \<times> RetryEvent list" where
  "retryLoop cfg operation attempt lastError tr =
     (if attempt \<le> maxRetries cfg then
        (case operation (invocations tr) of
           Inr v \<Rightarrow> (Inr v, tr @ [Invoked])
         | Inl err \<Rightarrow>
             (if attempt = maxRetries cfg then (Inl err, tr @ [Invoked])
              else retryLoop cfg operation (attempt + 1) err
                     (tr @ [Invoked, Warned (attempt + 1) (retryDelay cfg attempt),
                            Waited (retryDelay cfg attempt)])))
      else (Inl lastError, tr))"
  by pat_completeness auto
termination
  by (relation "measure (\<lambda>(cfg, operation, attempt, lastError, tr). Suc (maxRetries cfg) - attempt)") auto

declare retryLoop.simps [simp del]

definition retryOperation :: "UtilsConfig \<Rightarrow> (nat \<Rightarrow> thrown + 'a) \<Rightarrow> RetryConfig option
    \<Rightarrow> (thrown + 'a) \<times> RetryEvent list" where
  \<comment> \<open>the second parameter defaults to \<^verbatim>\<open>this.config.retryConfig\<close>; \<^verbatim>\<open>lastError\<close> starts undefined\<close>
  "retryOperation config operation arg =
     (case (case arg of None \<Rightarrow> retryConfig config | Some given \<Rightarrow> Some given) of
        None \<Rightarrow>
          (Inl (Error (''Cannot read properties of undefined (reading '' @ [CHR 0x27] @ ''maxRetries''
             @ [CHR 0x27] @ '')'')), [])
      | Some cfg \<Rightarrow> retryLoop cfg operation 0 (NonError DUndefined) [])"

section \<open>Notions used to state the claims\<close>

definition noListeners :: "Handler \<Rightarrow> bool" where
  \<comment> \<open>the executor builds its handler with \<^verbatim>\<open>new TestResultHandler()\<close> and never sets listeners\<close>
  "noListeners h = (onTestComplete (events h) = None \<and> onTestFailure (events h) = None)"

fun actionOutcomes :: "'w Driver \<Rightarrow> dict \<Rightarrow> TestStep list \<Rightarrow> 'w Executor \<Rightarrow> thrown option list" where
  \<comment> \<open>what the actions of the steps return or throw when performed one after another\<close>
  "actionOutcomes D td [] st = []"
| "actionOutcomes D td (stp # rest) st =
     (case performAction D stp td st of (r, st1) \<Rightarrow> r # actionOutcomes D td rest st1)"

definition errorValue :: "thrown \<Rightarrow> jsval" where
  \<comment> \<open>the \<^verbatim>\<open>error\<close> property a failed step result carries: none for an empty message\<close>
  "errorValue err =
     (if messageOr ''Step execution failed'' err = [] then Undefined
      else Str (messageOr ''Step execution failed'' err))"

definition keepsHandles :: "'w Executor \<Rightarrow> 'w Executor \<Rightarrow> bool" where
  \<comment> \<open>only the browser world differs\<close>
  "keepsHandles st st1 =
     (browser st1 = browser st \<and> browserContext st1 = browserContext st \<and> page st1 = page st
      \<and> resultHandler st1 = resultHandler st)"

definition retryRound :: "RetryConfig \<Rightarrow> nat \<Rightarrow> RetryEvent list" where
  \<comment> \<open>what a failed attempt that is retried leaves in the trace\<close>
  "retryRound cfg i = [Invoked, Warned (i + 1) (retryDelay cfg i), Waited (retryDelay cfg i)]"

definition escapeChar :: "char \<Rightarrow> string" where
  \<comment> \<open>the entity for one character\<close>
  "escapeChar c =
     (if c = CHR ''&'' then ''&amp;'' else if c = CHR ''<'' then ''&lt;''
      else if c = CHR ''>'' then ''&gt;'' else if c = CHR 0x22 then ''&quot;''
      else if c = CHR 0x27 then ''&apos;'' else [c])"

subsection \<open>A browser that records what it is asked\<close>

text \<open>
  A concrete driver for the examples: the page keeps a clock that every call advances, its
  URL, its title, a journal of the calls and the handles closed so far. Clicking
  \<^verbatim>\<open>#missing\<close> times out.
\<close>

record World =
  clock :: int
  currentUrl :: string
  documentTitle :: string
  journal :: "pageOp list"
  closedHandles :: "nat list"

definition recordCall :: "nat \<Rightarrow> pageOp \<Rightarrow> World \<Rightarrow> thrown option \<times> World" where
  "recordCall p c w =
     (if c = Click ''#missing'' then Some (Error ''Timeout 30000ms exceeded.'') else None,
      w\<lparr>clock := clock w + 1,
        currentUrl := (case c of Goto u \<Rightarrow> u | _ \<Rightarrow> currentUrl w),
        journal := journal w @ [c]\<rparr>)"

definition recordClose :: "nat \<Rightarrow> World \<Rightarrow> thrown option \<times> World" where
  "recordClose handle w = (None, w\<lparr>clock := clock w + 1, closedHandles := closedHandles w @ [handle]\<rparr>)"

definition failClose :: "nat \<Rightarrow> World \<Rightarrow> thrown option \<times> World" where
  "failClose handle w = (Some (Error ''Target page, context or browser has been closed''), w\<lparr>clock := clock w + 1\<rparr>)"

definition recordingDriver :: "World Driver" where
  "recordingDriver =
     \<lparr>pageCall = recordCall,
      pageUrl = (\<lambda>p w. currentUrl w),
      pageTitle = (\<lambda>p w. (Inr (documentTitle w), w)),
      textContent = (\<lambda>p sel w. (Inr (Some ''ready''), w)),
      evaluateTestLogs = (\<lambda>p w. (Inr (Arr []), w)),
      closePage = recordClose,
      closeContext = recordClose,
      closeBrowser = recordClose,
      dateNow = clock,
      parseInt = (\<lambda>s. None)\<rparr>"

definition exampleWorld :: World where
  "exampleWorld =
     \<lparr>clock = 1000, currentUrl = ''about:blank'', documentTitle = ''Home'', journal = [],
      closedHandles = []\<rparr>"

definition exampleRuntime :: Runtime where
  "exampleRuntime = \<lparr>envVars = [(''PLAYWRIGHT_BROWSER'', ''firefox'')], platform = ''linux''\<rparr>"

definition exampleExecutor :: "World Executor" where
  \<comment> \<open>an initialized executor: browser 1, context 2, page 3\<close>
  "exampleExecutor =
     \<lparr>browser = Some 1, browserContext = Some 2, page = Some 3, resultHandler = newHandler 1000,
      world = exampleWorld\<rparr>"

definition exampleCase :: TestCase where
  "exampleCase =
     \<lparr>caseId = ''login'', moduleId = ''auth'', title = ''User Login Test'', caseType = UI_WORKFLOW,
      priority = HIGH,
      steps = [\<lparr>step = 1, action = ''navigate'', expected = ''https://example.com/{{pathName}}'',
                element = Some [], data = None\<rparr>,
               \<lparr>step = 2, action = ''click'', expected = [], element = Some ''#missing'', data = None\<rparr>,
               \<lparr>step = 3, action = ''click'', expected = [], element = Some ''#submit'', data = None\<rparr>],
      testData = [(''pathName'', DStr ''login'')],
      expectedResults = [], dependencies = [], lifecycle = ACTIVE, createdAt = 0, updatedAt = 0\<rparr>"

definition exampleOptions :: ExecutionOptions where
  "exampleOptions =
     \<lparr>captureOnSuccess = Some False, stopOnFailure = Some False, delayBetweenTests = Some 0,
      optMaxRetries = Some 0, parallel = None\<rparr>"

definition failQuietly :: "nat \<Rightarrow> pageOp \<Rightarrow> World \<Rightarrow> thrown option \<times> World" where
  "failQuietly p c w = (Some (Error []), w)"

definition quietDriver :: "World Driver" where
  "quietDriver = recordingDriver\<lparr>pageCall := failQuietly\<rparr>"

definition quietCase :: TestCase where
  "quietCase = exampleCase\<lparr>caseId := ''quiet'', steps := [\<lparr>step = 1, action = ''click'', expected = [], element = Some ''#go'',
       data = None\<rparr>]\<rparr>"

definition detachedDriver :: "World Driver" where
  \<comment> \<open>a page that is navigating away: reading its title rejects\<close>
  "detachedDriver =
     recordingDriver\<lparr>pageTitle := (\<lambda>p w. (Inl (Error ''Execution context was destroyed''), w))\<rparr>"

definition failingCloseDriver :: "World Driver" where
  "failingCloseDriver = recordingDriver\<lparr>closePage := failClose\<rparr>"

definition flakyOperation :: "nat \<Rightarrow> thrown + nat" where
  "flakyOperation n = (if n < 2 then Inl (Error ''boom'') else Inr 42)"

definition exampleRetry :: RetryConfig where
  "exampleRetry = \<lparr>maxRetries = 3, delay = 1000, backoff = exponential\<rparr>"

definition failingOperation :: "nat \<Rightarrow> thrown + nat" where
  "failingOperation n = Inl (Error (''attempt '' @ showNat n))"

definition oddNameResult :: jsobj where
  "oddNameResult =
     [(''testCaseId'', Str ''a<b''), (''status'', Str ''PASSED''), (''duration'', Num 5),
      (''executedAt'', DateV 100)]"

definition exampleResult :: jsobj where
  "exampleResult =
     [(''testCaseId'', Str ''t1''), (''status'', Str ''PASSED''), (''duration'', Num 5),
      (''stepResults'', Arr []), (''artifacts'', Obj []), (''executedAt'', DateV 100)]"

definition exampleResults :: "jsobj list" where
  "exampleResults =
     [exampleResult,
      [(''testCaseId'', Str ''t2''), (''status'', Str ''FAILED''), (''duration'', Num 7),
       (''error'', Str ''a < b''), (''executedAt'', DateV 107)]]"

section \<open>Properties of objects and of placeholder substitution\<close>

lemma isWordChar_brace [simp]: "\<not> isWordChar CHR ''{''" "\<not> isWordChar CHR ''}''"
  by (simp_all add: isWordChar_def)

lemma map_of_setProp: "map_of (setProp k v ps) k' = (if k' = k then Some v else map_of ps k')"
  by (induction ps) auto

lemma keys_setProp:
  "map fst (setProp k v ps) = (if k \<in> fst ` set ps then map fst ps else map fst ps @ [k])"
  by (induction ps) auto

lemma distinct_setProp: "distinct (map fst ps) \<Longrightarrow> distinct (map fst (setProp k v ps))"
  by (induction ps) (auto simp: keys_setProp split: if_splits)


lemma matchPlaceholder_append:
  assumes "matchPlaceholder s = Some (k, rest)"
  shows "matchPlaceholder (s @ x) = Some (k, rest @ x)"
proof -
  from assms obtain t where s: "s = CHR ''{'' # CHR ''{'' # t"
    by (auto simp: matchPlaceholder_def split: list.splits if_splits)
  from assms s have tw: "takeWhile isWordChar t = k" "k \<noteq> []"
    and dw: "dropWhile isWordChar t = CHR ''}'' # CHR ''}'' # rest"
    by (auto simp: matchPlaceholder_def split: list.splits if_splits)
  from dw have t: "t = k @ CHR ''}'' # CHR ''}'' # rest"
    using tw takeWhile_dropWhile_id[of isWordChar t] by simp
  have k: "\<forall>c \<in> set k. isWordChar c" using tw by (metis set_takeWhileD)
  have "takeWhile isWordChar (t @ x) = k" "dropWhile isWordChar (t @ x) = CHR ''}'' # CHR ''}'' # rest @ x"
    using k by (simp_all add: t takeWhile_append2 dropWhile_append2)
  then show ?thesis using tw by (simp add: s matchPlaceholder_def)
qed

lemma matchPlaceholder_None_append:
  assumes "matchPlaceholder s = None" "s \<noteq> []"
  shows "matchPlaceholder (s @ CHR ''{'' # CHR ''{'' # x) = None"
proof (cases s)
  case Nil with assms show ?thesis by simp
next
  case (Cons c1 s')
  show ?thesis
  proof (cases s')
    case Nil
    then show ?thesis using Cons by (simp add: matchPlaceholder_def)
  next
    case (Cons c2 t)
    note s = \<open>s = c1 # s'\<close> Cons
    show ?thesis
    proof (cases "dropWhile isWordChar t")
      case Nil
      then have "\<forall>c \<in> set t. isWordChar c" by (simp add: dropWhile_eq_Nil_conv)
      then have "takeWhile isWordChar (t @ CHR ''{'' # CHR ''{'' # x) = t"
        "dropWhile isWordChar (t @ CHR ''{'' # CHR ''{'' # x) = CHR ''{'' # CHR ''{'' # x"
        by (simp_all add: takeWhile_append2 dropWhile_append2)
      then show ?thesis by (simp add: s matchPlaceholder_def)
    next
      case (Cons d ds)
      then have "d \<in> set t" "\<not> isWordChar d"
        by (metis list.set_intros(1) set_dropWhileD, metis hd_dropWhile list.sel(1) list.distinct(1))
      then have "takeWhile isWordChar (t @ CHR ''{'' # CHR ''{'' # x) = takeWhile isWordChar t"
        "dropWhile isWordChar (t @ CHR ''{'' # CHR ''{'' # x) = dropWhile isWordChar t @ CHR ''{'' # CHR ''{'' # x"
        by (simp_all add: takeWhile_append1 dropWhile_append1)
      then show ?thesis using assms(1) Cons
        by (cases ds) (auto simp: s matchPlaceholder_def split: if_splits)
    qed
  qed
qed

lemma thenText_Inl [simp]: "thenText (Inl err) b = Inl err"
  by (simp add: thenText_def)

lemma thenText_Inr [simp]: "thenText (Inr x) (Inr y) = Inr (x @ y)"
  by (simp add: thenText_def)

lemma thenText_Inr_Inl [simp]: "thenText (Inr x) (Inl err) = Inl err"
  by (simp add: thenText_def)

lemma thenText_Nil [simp]: "thenText (Inr []) b = b" "thenText a (Inr []) = a"
  by (cases b; simp) (cases a; simp)

lemma thenText_assoc: "thenText (thenText a b) c = thenText a (thenText b c)"
  by (cases a; cases b; cases c; simp)


lemma replacePlaceholders_before:
  assumes y: "y = CHR ''{'' # CHR ''{'' # x"
  shows "replacePlaceholders f (pre @ y) = thenText (replacePlaceholders f pre) (replacePlaceholders f y)"
proof (induction f pre rule: replacePlaceholders.induct)
  case (1 f)
  show ?case by simp
next
  case (2 f c cs)
  show ?case
  proof (cases "matchPlaceholder (c # cs)")
    case None
    then have "matchPlaceholder ((c # cs) @ y) = None"
      unfolding y by (rule matchPlaceholder_None_append) simp
    then show ?thesis using None 2 by (simp add: thenText_assoc)
  next
    case (Some kr)
    obtain k rest where kr: "kr = (k, rest)" by (cases kr)
    have "matchPlaceholder ((c # cs) @ y) = Some (k, rest @ y)"
      using Some kr matchPlaceholder_append[of "c # cs" k rest y] by simp
    then show ?thesis using Some kr 2 by (simp add: thenText_assoc)
  qed
qed



lemma matchPlaceholder_not_brace:
  "c \<noteq> CHR ''{'' \<Longrightarrow> matchPlaceholder (c # s) = None"
  by (simp add: matchPlaceholder_def split: list.splits)

lemma replacePlaceholders_no_open:
  "CHR ''{'' \<notin> set k \<Longrightarrow> replacePlaceholders f (k @ y) = thenText (Inr k) (replacePlaceholders f y)"
proof (induction k)
  case Nil
  show ?case by simp
next
  case (Cons c k)
  then have "c \<noteq> CHR ''{''" by auto
  then have "replacePlaceholders f ((c # k) @ y) = thenText (Inr [c]) (thenText (Inr k) (replacePlaceholders f y))"
    using Cons by (simp add: matchPlaceholder_not_brace)
  then show ?case by (simp add: thenText_assoc[symmetric])
qed

lemma replacePlaceholders_nonword:
  assumes nw: "\<not> list_all isWordChar k" and nb: "CHR ''{'' \<notin> set k" "CHR ''}'' \<notin> set k"
  shows "replacePlaceholders f (CHR ''{'' # CHR ''{'' # k @ CHR ''}'' # CHR ''}'' # post)
     = thenText (Inr (CHR ''{'' # CHR ''{'' # k @ ''}}'')) (replacePlaceholders f post)"
proof -
  let ?t = "k @ CHR ''}'' # CHR ''}'' # post"
  from nw obtain d where d: "d \<in> set k" "\<not> isWordChar d" by (auto simp: list_all_iff)
  then have dw: "dropWhile isWordChar ?t = dropWhile isWordChar k @ CHR ''}'' # CHR ''}'' # post"
    by (simp add: dropWhile_append1)
  from d obtain e es where e: "dropWhile isWordChar k = e # es"
    by (cases "dropWhile isWordChar k") (auto simp: dropWhile_eq_Nil_conv)
  then have "e \<in> set k" by (metis list.set_intros(1) set_dropWhileD)
  then have "e \<noteq> CHR ''}''" using nb by auto
  then have m0: "matchPlaceholder (CHR ''{'' # CHR ''{'' # ?t) = None"
    using dw e by (cases es) (auto simp: matchPlaceholder_def)
  from d obtain k0 ks where k: "k = k0 # ks" by (cases k) auto
  then have "k0 \<noteq> CHR ''{''" using nb by auto
  then have m1: "matchPlaceholder (CHR ''{'' # ?t) = None"
    by (simp add: k matchPlaceholder_def)
  have r: "replacePlaceholders f ?t = thenText (Inr k) (replacePlaceholders f (CHR ''}'' # CHR ''}'' # post))"
    using nb by (simp add: replacePlaceholders_no_open)
  have "replacePlaceholders f (CHR ''{'' # CHR ''{'' # ?t)
      = thenText (Inr ''{'') (thenText (Inr ''{'') (thenText (Inr k)
          (thenText (Inr ''}'') (thenText (Inr ''}'') (replacePlaceholders f post)))))"
    using m0 m1 r by (simp add: matchPlaceholder_not_brace)
  then show ?thesis by (simp add: thenText_assoc[symmetric])
qed

lemma setProp_fresh: "k \<notin> fst ` set ps \<Longrightarrow> setProp k v ps = ps @ [(k, v)]"
  by (induction ps) auto

lemma spreadInto_distinct: "distinct (map fst (t @ s)) \<Longrightarrow> spreadInto t s = t @ s"
proof (induction s arbitrary: t)
  case Nil
  show ?case by (simp add: spreadInto_def)
next
  case (Cons p s)
  have fresh: "fst p \<notin> fst ` set t" using Cons.prems by auto
  have "spreadInto t (p # s) = spreadInto (setProp (fst p) (snd p) t) s"
    by (simp add: spreadInto_def)
  also have "\<dots> = spreadInto (t @ [p]) s" using fresh by (simp add: setProp_fresh)
  also have "\<dots> = (t @ [p]) @ s" using Cons.prems by (intro Cons.IH) simp
  finally show ?case by simp
qed



lemma resolveValue_nonword:
  assumes "\<not> list_all isWordChar k" "CHR ''{'' \<notin> set k" "CHR ''}'' \<notin> set k"
  shows "resolveValue (pre @ ''{{'' @ k @ ''}}'' @ post) m
     = thenText (resolveValue pre m) (thenText (Inr (''{{'' @ k @ ''}}'')) (resolveValue post m))"
  unfolding resolveValue_def
  using replacePlaceholders_before[of "''{{'' @ k @ ''}}'' @ post" "k @ ''}}'' @ post" _ pre]
    replacePlaceholders_nonword[OF assms, of _ post]
  by simp

lemma matchPlaceholder_key:
  assumes "matchPlaceholder s = Some (k, rest)"
  shows "k \<noteq> [] \<and> list_all isWordChar k"
proof -
  from assms obtain t where "k = takeWhile isWordChar t" "k \<noteq> []"
    by (auto simp: matchPlaceholder_def split: list.splits if_splits)
  then show ?thesis by (auto simp: list_all_iff dest: set_takeWhileD)
qed

lemma replacePlaceholders_agree:
  "(\<And>mt key. key \<noteq> [] \<Longrightarrow> list_all isWordChar key \<Longrightarrow> f mt key = g mt key)
     \<Longrightarrow> replacePlaceholders f s = replacePlaceholders g s"
proof (induction f s rule: replacePlaceholders.induct)
  case (1 f)
  show ?case by simp
next
  case (2 f c cs)
  show ?case
  proof (cases "matchPlaceholder (c # cs)")
    case None
    then have "replacePlaceholders f cs = replacePlaceholders g cs"
      using "2.IH"(1) "2.prems" by simp
    then show ?thesis using None by simp
  next
    case (Some kr)
    obtain k rest where kr: "kr = (k, rest)" by (cases kr)
    have "k \<noteq> []" "list_all isWordChar k"
      using matchPlaceholder_key[of "c # cs" k rest] Some kr by simp_all
    then have hd: "f (''{{'' @ k @ ''}}'') k = g (''{{'' @ k @ ''}}'') k" by (rule "2.prems")
    have "replacePlaceholders f rest = replacePlaceholders g rest"
      using "2.IH"(2)[OF Some[unfolded kr] refl] "2.prems" by simp
    then show ?thesis using Some kr hd by simp
  qed
qed



lemma jsString_DOther [simp]: "jsString (DOther r) = r"
  by (simp add: jsString_def)


lemma getMember_setProp_other: "key \<noteq> k \<Longrightarrow> getMember (setProp k v m) key = getMember m key"
  by (simp add: getMember_def map_of_setProp)

lemma resolveValue_ignores_nonword_key:
  assumes "\<not> list_all isWordChar k"
  shows "resolveValue s (setProp k v m) = resolveValue s m"
  unfolding resolveValue_def
proof (rule replacePlaceholders_agree)
  fix mt key
  assume "key \<noteq> []" "list_all isWordChar key"
  then have "key \<noteq> k" using assms by auto
  then show "(if getMember (setProp k v m) key \<noteq> DUndefined then jsString (getMember (setProp k v m) key) else Inr mt)
      = (if getMember m key \<noteq> DUndefined then jsString (getMember m key) else Inr mt)"
    by (simp add: getMember_setProp_other)
qed


section \<open>Placeholder substitution: the claims\<close>



lemma resolveValue_Nil [simp]: "resolveValue [] m = Inr []"
  by (simp add: resolveValue_def)





text \<open>
  Claim C10, as amended. When the text between the double braces contains a character that
  is not a word character and contains no brace, the occurrence is left verbatim, whatever
  the data binds to it; and binding such a key never changes how any string resolves.
\<close>

theorem resolveValue_nonword_key_verbatim:
  assumes "\<not> list_all isWordChar k"
  shows "(CHR ''{'' \<notin> set k \<and> CHR ''}'' \<notin> set k \<longrightarrow>
            resolveValue (pre @ ''{{'' @ k @ ''}}'' @ post) m
              = thenText (resolveValue pre m) (thenText (Inr (''{{'' @ k @ ''}}'')) (resolveValue post m)))
       \<and> resolveValue s (setProp k v m) = resolveValue s m"
  using assms resolveValue_nonword[of k pre post m] resolveValue_ignores_nonword_key[of k s v m]
  by blast

theorem resolveValue_nonword_key_verbatim_witness:
  "\<not> list_all isWordChar ''user-name''
   \<and> resolveValue ''Hi {{user-name}}!'' [(''user-name'', DStr ''bob'')] = Inr ''Hi {{user-name}}!''
   \<and> resolveValue ''Hi {{user-name}}!'' [(''user-name'', DStr ''bob'')] = resolveValue ''Hi {{user-name}}!'' []"
proof -
  have k: "\<not> list_all isWordChar ''user-name''" by (simp add: isWordChar_def)
  have r0: "resolveValue ''Hi '' [(''user-name'', DStr ''bob'')] = Inr ''Hi ''"
    "resolveValue ''!'' [(''user-name'', DStr ''bob'')] = Inr ''!''"
    by (simp_all add: resolveValue_def matchPlaceholder_def)
  show ?thesis
    using resolveValue_nonword_key_verbatim[OF k, where pre = "''Hi ''" and post = "''!''"
        and m = "[(''user-name'', DStr ''bob'')]"]
      resolveValue_nonword_key_verbatim[OF k, where s = "''Hi {{user-name}}!''" and v = "DStr ''bob''"
        and m = "[]"] k r0
    by simp
qed

text \<open>
  The claim as stated fails when the text between the braces itself contains braces: a
  placeholder inside it is still replaced.
\<close>

theorem resolveValue_nonword_key_with_braces:
  "\<not> list_all isWordChar ''x{{a''
   \<and> resolveValue (''{{'' @ ''x{{a'' @ ''}}'') [(''a'', DStr ''1''), (''x{{a'', DStr ''2'')] = Inr ''{{x1''"
  by (simp add: resolveValue_def matchPlaceholder_def isWordChar_def getMember_def jsString_def
      inheritedNames_def)

section \<open>The result handler: the claims\<close>

lemma keyset_setProp: "fst ` set (setProp k v ps) = insert k (fst ` set ps)"
  by (induction ps) auto

lemma getProp_setProp: "getProp (setProp k v ps) k' = (if k' = k then v else getProp ps k')"
  by (simp add: getProp_def map_of_setProp)

lemma enhance_keys:
  assumes "distinct (map fst result)"
  shows "map fst (enhance rt now result)
     = map fst result @ filter (\<lambda>k. k \<notin> set (map fst result)) [''executedAt'', ''browserInfo'']"
  using assms spreadInto_distinct[of "[]" result]
  by (auto simp: enhance_def keys_setProp keyset_setProp)

lemma enhance_lookup:
  assumes "distinct (map fst result)"
  shows "map_of (enhance rt now result) k
     = (if k = ''browserInfo'' then Some (getBrowserInfo rt)
        else if k = ''executedAt'' then Some (DateV now) else map_of result k)"
  using assms spreadInto_distinct[of "[]" result]
  by (simp add: enhance_def map_of_setProp)

lemma processResult_Inr:
  assumes "processResult rt now result h = (Inr e, h')"
  shows "e = enhance rt now result \<and> h' = h\<lparr>results := results h @ [result]\<rparr>"
  using assms by (auto simp: processResult_def Let_def split: option.splits)

lemma processResult_no_listeners:
  assumes "onTestComplete (events h) = None" "onTestFailure (events h) = None"
  shows "processResult rt now result h = (Inr (enhance rt now result), h\<lparr>results := results h @ [result]\<rparr>)"
  using assms by (simp add: processResult_def Let_def fireComplete_def fireFailure_def)

text \<open>
  Claim C3, as amended. For a result object passed to \<^verbatim>\<open>processResult\<close> that returns: the
  enriched copy has the keys of the input in the same order, followed by
  \<^verbatim>\<open>executedAt\<close> and \<^verbatim>\<open>browserInfo\<close> where the input lacks them; every field other than
  these two has the value it has in the input; \<^verbatim>\<open>executedAt\<close> is the time of the call and
  \<^verbatim>\<open>browserInfo\<close> the browser information; and the input itself, untouched, is what the
  handler appends to its result set.
\<close>

theorem processResult_frame:
  assumes "distinct (map fst result)" and "processResult rt now result h = (Inr e, h')"
  shows "map fst e = map fst result @ filter (\<lambda>k. k \<notin> set (map fst result)) [''executedAt'', ''browserInfo'']
       \<and> (\<forall>k. k \<noteq> ''executedAt'' \<and> k \<noteq> ''browserInfo'' \<longrightarrow> map_of e k = map_of result k)
       \<and> map_of e ''executedAt'' = Some (DateV now)
       \<and> map_of e ''browserInfo'' = Some (getBrowserInfo rt)
       \<and> results h' = results h @ [result]"
  using processResult_Inr[OF assms(2)] enhance_keys[OF assms(1)] enhance_lookup[OF assms(1)]
  by simp

theorem processResult_frame_witness:
  "map fst (enhance exampleRuntime 200 exampleResult)
     = [''testCaseId'', ''status'', ''duration'', ''stepResults'', ''artifacts'', ''executedAt'', ''browserInfo'']
   \<and> map_of (enhance exampleRuntime 200 exampleResult) ''duration'' = Some (Num 5)
   \<and> map_of (enhance exampleRuntime 200 exampleResult) ''executedAt'' = Some (DateV 200)"
proof -
  have d: "distinct (map fst exampleResult)" by (simp add: exampleResult_def)
  have p: "processResult exampleRuntime 200 exampleResult (newHandler 0)
      = (Inr (enhance exampleRuntime 200 exampleResult),
         (newHandler 0)\<lparr>results := results (newHandler 0) @ [exampleResult]\<rparr>)"
    by (rule processResult_no_listeners) (simp_all add: newHandler_def)
  show ?thesis using processResult_frame[OF d p] by (simp add: exampleResult_def)
qed

text \<open>
  The claim as stated fails on \<^verbatim>\<open>executedAt\<close>: a result executed at time 100 and processed
  at time 200 comes back with \<^verbatim>\<open>executedAt\<close> 200.
\<close>

theorem processResult_rewrites_executedAt:
  "fst (processResult exampleRuntime 200 exampleResult (newHandler 0))
     = Inr (enhance exampleRuntime 200 exampleResult)
   \<and> getProp exampleResult ''executedAt'' = DateV 100
   \<and> getProp (enhance exampleRuntime 200 exampleResult) ''executedAt'' = DateV 200"
  by (simp add: processResult_def fireComplete_def fireFailure_def newHandler_def Let_def enhance_def
      exampleResult_def getProp_def spreadInto_def)

lemma foldl_plus_sum: "foldl (\<lambda>acc r. acc + f r) a rs = (a::int) + sum_list (map f rs)"
  by (induction rs arbitrary: a) auto

text \<open>
  Claim C9. Two calls of \<^verbatim>\<open>generateSummary\<close> on the same result set, at any two times and
  whatever else differs, give the same total, passed, failed, skipped and flaky counts and
  the same duration, which is the sum of the duration fields of the results; the end time
  is the time of each call.
\<close>

theorem generateSummary_idempotent:
  assumes "results h1 = results h2"
  shows "total (generateSummary rt1 now1 arg h1) = total (generateSummary rt2 now2 arg h2)
       \<and> passed (generateSummary rt1 now1 arg h1) = passed (generateSummary rt2 now2 arg h2)
       \<and> failed (generateSummary rt1 now1 arg h1) = failed (generateSummary rt2 now2 arg h2)
       \<and> skipped (generateSummary rt1 now1 arg h1) = skipped (generateSummary rt2 now2 arg h2)
       \<and> flaky (generateSummary rt1 now1 arg h1) = flaky (generateSummary rt2 now2 arg h2)
       \<and> duration (generateSummary rt1 now1 arg h1) = duration (generateSummary rt2 now2 arg h2)
       \<and> duration (generateSummary rt1 now1 arg h1)
           = sum_list (map (\<lambda>r. numberOf (getProp r ''duration''))
               (case arg of None \<Rightarrow> results h1 | Some given \<Rightarrow> given))
       \<and> endTime (generateSummary rt1 now1 arg h1) = now1
       \<and> endTime (generateSummary rt2 now2 arg h2) = now2"
  using assms by (cases arg) (simp_all add: generateSummary_def Let_def foldl_plus_sum)

theorem generateSummary_idempotent_witness:
  "total (generateSummary exampleRuntime 200 None ((newHandler 0)\<lparr>results := exampleResults\<rparr>)) = 2
   \<and> duration (generateSummary exampleRuntime 200 None ((newHandler 0)\<lparr>results := exampleResults\<rparr>)) = 12
   \<and> duration (generateSummary exampleRuntime 300 None ((newHandler 0)\<lparr>results := exampleResults\<rparr>)) = 12
   \<and> endTime (generateSummary exampleRuntime 300 None ((newHandler 0)\<lparr>results := exampleResults\<rparr>)) = 300"
  using generateSummary_idempotent[of "(newHandler 0)\<lparr>results := exampleResults\<rparr>"
      "(newHandler 0)\<lparr>results := exampleResults\<rparr>" exampleRuntime 200 None exampleRuntime 300]
  by (simp add: generateSummary_def Let_def exampleResults_def exampleResult_def getProp_def
      numberOf_def newHandler_def)

subsection \<open>JUnit export\<close>

lemma replaceAllChar_Nil: "replaceAllChar c r [] = []"
  by (simp add: replaceAllChar_def)

lemma replaceAllChar_Cons:
  "replaceAllChar c r (x # xs) = (if x = c then r else [x]) @ replaceAllChar c r xs"
  by (simp add: replaceAllChar_def)

lemma replaceAllChar_append: "replaceAllChar c r (a @ b) = replaceAllChar c r a @ replaceAllChar c r b"
  by (simp add: replaceAllChar_def)

lemma escapeXml_Nil: "escapeXml [] = []"
  by (simp add: escapeXml_def replaceAllChar_Nil)

lemma escapeXml_Cons: "escapeXml (x # s) = escapeChar x @ escapeXml s"
  by (simp add: escapeXml_def escapeChar_def replaceAllChar_Cons replaceAllChar_Nil replaceAllChar_append)

lemma escapeXml_one_pass: "escapeXml s = concat (map escapeChar s)"
  by (induction s) (simp_all add: escapeXml_Nil escapeXml_Cons)

lemma escapeXml_no_markup:
  "CHR ''<'' \<notin> set (escapeXml s) \<and> CHR ''>'' \<notin> set (escapeXml s)
   \<and> CHR 0x22 \<notin> set (escapeXml s) \<and> CHR 0x27 \<notin> set (escapeXml s)"
  by (auto simp: escapeXml_one_pass escapeChar_def split: if_splits)

lemma escapeXml_append: "escapeXml (a @ b) = escapeXml a @ escapeXml b"
  by (simp add: escapeXml_one_pass)

lemma showNat_digit: "n < 10 \<Longrightarrow> showNat n = [''0123456789'' ! n]"
  by (simp add: showNat.simps)

text \<open>
  Claim C6. In the JUnit document the failure message is written through \<^verbatim>\<open>escapeXml\<close>,
  which leaves none of the characters \<^verbatim>\<open><\<close>, \<^verbatim>\<open>>\<close>, double quote and apostrophe and
  writes every ampersand as an entity. The test name is written as it is: the result set
  with the one passed result whose test case id is \<^verbatim>\<open>a<b\<close> gives the document below,
  with the raw \<^verbatim>\<open><\<close> inside the name attribute.
\<close>

theorem junit_test_name_not_escaped:
  "generateJunitXml (generateSummary exampleRuntime 200 (Some [oddNameResult]) (newHandler 0)) [oddNameResult]
     = ''<?xml version='' @ [CHR 0x22] @ ''1.0'' @ [CHR 0x22] @ '' encoding='' @ [CHR 0x22] @ ''UTF-8''
         @ [CHR 0x22] @ ''?>'' @ [CHR 0x0A]
         @ ''<testsuite name='' @ [CHR 0x22] @ ''AI Testing Agent'' @ [CHR 0x22]
         @ '' tests='' @ [CHR 0x22] @ ''1'' @ [CHR 0x22] @ '' failures='' @ [CHR 0x22] @ ''0'' @ [CHR 0x22]
         @ '' skipped='' @ [CHR 0x22] @ ''0'' @ [CHR 0x22] @ '' time='' @ [CHR 0x22] @ ''0.005''
         @ [CHR 0x22] @ ''>'' @ [CHR 0x0A]
         @ ''<testcase name='' @ [CHR 0x22] @ ''a<b'' @ [CHR 0x22] @ '' time='' @ [CHR 0x22] @ ''0.005''
         @ [CHR 0x22] @ ''></testcase>'' @ [CHR 0x0A]
         @ ''</testsuite>''"
  by (simp add: generateJunitXml_def generateSummary_def countStatus_def oddNameResult_def Let_def
      junitTestCase_def getProp_def templateText_def numberOf_def toFixed3_def pad3_def showNat_digit)

lemma junit_failure_message_escaped:
  "junitTestCase [(''testCaseId'', Str ''t2''), (''status'', Str ''FAILED''), (''duration'', Num 7),
                  (''error'', Str ''a < b & c''), (''executedAt'', DateV 107)]
     = ''<testcase name='' @ [CHR 0x22] @ ''t2'' @ [CHR 0x22] @ '' time='' @ [CHR 0x22] @ ''0.007''
         @ [CHR 0x22] @ ''><failure message='' @ [CHR 0x22] @ ''a &lt; b &amp; c'' @ [CHR 0x22]
         @ ''>a &lt; b &amp; c</failure></testcase>''"
  by (simp add: junitTestCase_def getProp_def templateText_def numberOf_def toFixed3_def pad3_def
      showNat_digit stringOr_def escapeXml_def replaceAllChar_def)

section \<open>The executor: the claims\<close>

subsection \<open>Assertions without a selector\<close>

lemma startsWith_iff: "startsWith s p \<longleftrightarrow> (\<exists>r. s = p @ r)"
  by (induction s p rule: startsWith.induct) auto

lemma includesStr_iff: "includesStr s t \<longleftrightarrow> (\<exists>a b. s = a @ t @ b)"
proof (induction s)
  case Nil
  show ?case by auto
next
  case (Cons c cs)
  have "(\<exists>a b. c # cs = a @ t @ b) \<longleftrightarrow> (\<exists>b. c # cs = t @ b) \<or> (\<exists>a b. cs = a @ t @ b)"
  proof
    assume "\<exists>a b. c # cs = a @ t @ b"
    then obtain a b where ab: "c # cs = a @ t @ b" by blast
    show "(\<exists>b. c # cs = t @ b) \<or> (\<exists>a b. cs = a @ t @ b)"
    proof (cases a)
      case Nil
      then show ?thesis using ab by auto
    next
      case (Cons x a')
      then have "cs = a' @ t @ b" using ab by simp
      then show ?thesis by blast
    qed
  next
    assume "(\<exists>b. c # cs = t @ b) \<or> (\<exists>a b. cs = a @ t @ b)"
    then show "\<exists>a b. c # cs = a @ t @ b"
    proof
      assume "\<exists>b. c # cs = t @ b"
      then obtain b where "c # cs = [] @ t @ b" by auto
      then show ?thesis by blast
    next
      assume "\<exists>a b. cs = a @ t @ b"
      then obtain a b where "c # cs = (c # a) @ t @ b" by auto
      then show ?thesis by blast
    qed
  qed
  then show ?case using Cons by (simp add: startsWith_iff)
qed

lemma replaceFirst_prefix: "replaceFirst (p @ r) p [] = r"
proof (cases "p @ r")
  case Nil
  then show ?thesis by simp
next
  case (Cons c cs)
  have "startsWith (c # cs) p" using Cons[symmetric] by (simp add: startsWith_iff)
  then have "replaceFirst (c # cs) p [] = drop (length p) (c # cs)" by simp
  then show ?thesis using Cons[symmetric] by simp
qed

lemma not_hasSelector: "\<not> hasSelector e \<longleftrightarrow> e = None \<or> e = Some []"
  by (cases e) (auto simp: hasSelector_def)

lemma performAssertion_no_selector:
  assumes "page st = Some p" "\<not> hasSelector (element stp)"
  shows "performAssertion D stp td st
     = (case resolveValue (expected stp) td of
          Inl err \<Rightarrow> (Some err, st)
        | Inr ev \<Rightarrow> assertPage D p ev st)"
  using assms by (auto simp: performAssertion_def not_hasSelector split: sum.splits)

text \<open>
  Claim C8, as amended. On an executor that holds a page, for an assert step without a
  selector (\<^verbatim>\<open>element\<close> undefined or empty): when resolving the expected value raises,
  \<^verbatim>\<open>performAssertion\<close> raises that error. When the resolved expected value starts with
  neither \<^verbatim>\<open>url:\<close> nor \<^verbatim>\<open>title:\<close>, it returns without raising and leaves the state as it
  is, whatever the page. When the resolved value is \<^verbatim>\<open>url:\<close> followed by a remainder, it
  raises exactly when the current URL does not contain the remainder. When it is
  \<^verbatim>\<open>title:\<close> followed by a remainder: if reading the title rejects, it raises that
  rejection, whatever the title; if the page reports its title, it raises exactly when the
  reported title does not contain the remainder.
\<close>

theorem performAssertion_without_selector:
  assumes "page st = Some p" and "\<not> hasSelector (element stp)"
  shows "(resolveValue (expected stp) td = Inl err \<longrightarrow> performAssertion D stp td st = (Some err, st))
       \<and> (resolveValue (expected stp) td = Inr ev \<and> \<not> startsWith ev ''url:'' \<and> \<not> startsWith ev ''title:''
            \<longrightarrow> performAssertion D stp td st = (None, st))
       \<and> (resolveValue (expected stp) td = Inr (''url:'' @ rest)
            \<longrightarrow> (fst (performAssertion D stp td st) \<noteq> None
                 \<longleftrightarrow> \<not> (\<exists>a b. pageUrl D p (world st) = a @ rest @ b)))
       \<and> (resolveValue (expected stp) td = Inr (''title:'' @ rest) \<and> fst (pageTitle D p (world st)) = Inr t
            \<longrightarrow> (fst (performAssertion D stp td st) \<noteq> None \<longleftrightarrow> \<not> (\<exists>a b. t = a @ rest @ b)))
       \<and> (resolveValue (expected stp) td = Inr (''title:'' @ rest) \<and> fst (pageTitle D p (world st)) = Inl err
            \<longrightarrow> fst (performAssertion D stp td st) = Some err)"
proof -
  let ?r = "resolveValue (expected stp) td"
  note pa = performAssertion_no_selector[OF assms, of D td]
  have z: "?r = Inl err \<longrightarrow> performAssertion D stp td st = (Some err, st)"
    by (simp add: pa)
  have a: "?r = Inr ev \<and> \<not> startsWith ev ''url:'' \<and> \<not> startsWith ev ''title:''
      \<longrightarrow> performAssertion D stp td st = (None, st)"
    by (simp add: pa assertPage_def)
  have b: "?r = Inr (''url:'' @ rest) \<longrightarrow> (fst (performAssertion D stp td st) \<noteq> None
      \<longleftrightarrow> \<not> (\<exists>a b. pageUrl D p (world st) = a @ rest @ b))"
  proof
    assume ev: "?r = Inr (''url:'' @ rest)"
    have "replaceFirst (''url:'' @ rest) ''url:'' [] = rest" by (rule replaceFirst_prefix)
    then show "fst (performAssertion D stp td st) \<noteq> None
        \<longleftrightarrow> \<not> (\<exists>a b. pageUrl D p (world st) = a @ rest @ b)"
      using ev by (simp add: pa assertPage_def Let_def includesStr_iff del: replaceFirst.simps)
  qed
  have c: "?r = Inr (''title:'' @ rest) \<and> fst (pageTitle D p (world st)) = Inr t
      \<longrightarrow> (fst (performAssertion D stp td st) \<noteq> None \<longleftrightarrow> \<not> (\<exists>a b. t = a @ rest @ b))"
  proof
    assume h: "?r = Inr (''title:'' @ rest) \<and> fst (pageTitle D p (world st)) = Inr t"
    then obtain w1 where t: "pageTitle D p (world st) = (Inr t, w1)"
      by (cases "pageTitle D p (world st)") auto
    have "replaceFirst (''title:'' @ rest) ''title:'' [] = rest" by (rule replaceFirst_prefix)
    then show "fst (performAssertion D stp td st) \<noteq> None \<longleftrightarrow> \<not> (\<exists>a b. t = a @ rest @ b)"
      using h t by (simp add: pa assertPage_def Let_def includesStr_iff del: replaceFirst.simps)
  qed
  have d: "?r = Inr (''title:'' @ rest) \<and> fst (pageTitle D p (world st)) = Inl err
      \<longrightarrow> fst (performAssertion D stp td st) = Some err"
  proof
    assume h: "?r = Inr (''title:'' @ rest) \<and> fst (pageTitle D p (world st)) = Inl err"
    then obtain w1 where t: "pageTitle D p (world st) = (Inl err, w1)"
      by (cases "pageTitle D p (world st)") auto
    show "fst (performAssertion D stp td st) = Some err"
      using h t by (simp add: pa assertPage_def Let_def del: replaceFirst.simps)
  qed
  from z a b c d show ?thesis by blast
qed

theorem performAssertion_without_selector_witness:
  "performAssertion recordingDriver
       \<lparr>step = 6, action = ''assert'', expected = ''Welcome {{user}}'', element = Some [], data = None\<rparr>
       [(''user'', DStr ''alice'')] exampleExecutor = (None, exampleExecutor)
   \<and> fst (performAssertion recordingDriver
       \<lparr>step = 6, action = ''assert'', expected = ''url:blank'', element = None, data = None\<rparr>
       [] exampleExecutor) = None
   \<and> fst (performAssertion recordingDriver
       \<lparr>step = 6, action = ''assert'', expected = ''title:Dashboard'', element = None, data = None\<rparr>
       [] exampleExecutor) \<noteq> None
   \<and> fst (performAssertion detachedDriver
       \<lparr>step = 6, action = ''assert'', expected = ''title:Dashboard'', element = None, data = None\<rparr>
       [] exampleExecutor) = Some (Error ''Execution context was destroyed'')
   \<and> performAssertion recordingDriver
       \<lparr>step = 6, action = ''assert'', expected = ''{{user}}'', element = None, data = None\<rparr>
       [(''user'', DSymbol ''u''), (''list'', DArr [DSymbol ''u''])] exampleExecutor = (None, exampleExecutor)
   \<and> performAssertion recordingDriver
       \<lparr>step = 6, action = ''assert'', expected = ''{{list}}'', element = None, data = None\<rparr>
       [(''user'', DSymbol ''u''), (''list'', DArr [DSymbol ''u''])] exampleExecutor
     = (Some (Error ''Cannot convert a Symbol value to a string''), exampleExecutor)"
proof -
  let ?td = "[(''user'', DSymbol ''u''), (''list'', DArr [DSymbol ''u''])]"
  let ?s1 = "\<lparr>step = 6, action = ''assert'', expected = ''Welcome {{user}}'', element = Some [], data = None\<rparr>"
  let ?s2 = "\<lparr>step = 6, action = ''assert'', expected = ''url:blank'', element = None, data = None\<rparr>"
  let ?s3 = "\<lparr>step = 6, action = ''assert'', expected = ''title:Dashboard'', element = None, data = None\<rparr>"
  let ?s4 = "\<lparr>step = 6, action = ''assert'', expected = ''{{user}}'', element = None, data = None\<rparr>"
  let ?s5 = "\<lparr>step = 6, action = ''assert'', expected = ''{{list}}'', element = None, data = None\<rparr>"
  let ?gone = "Error ''Execution context was destroyed''"
  let ?sym = "Error ''Cannot convert a Symbol value to a string''"
  have pg: "page exampleExecutor = Some 3" by (simp add: exampleExecutor_def)
  have r: "resolveValue ''Welcome {{user}}'' [(''user'', DStr ''alice'')] = Inr ''Welcome alice''"
    "resolveValue ''url:blank'' [] = Inr (''url:'' @ ''blank'')"
    "resolveValue ''title:Dashboard'' [] = Inr (''title:'' @ ''Dashboard'')"
    "resolveValue ''{{user}}'' ?td = Inr ''Symbol(u)''"
    "resolveValue ''{{list}}'' ?td = Inl ?sym"
    by (simp_all add: resolveValue_def matchPlaceholder_def isWordChar_def getMember_def jsString_def)
  have u: "\<exists>a b. pageUrl recordingDriver 3 (world exampleExecutor) = a @ ''blank'' @ b"
    by (rule exI[of _ "''about:''"], rule exI[of _ "[]"])
      (simp add: recordingDriver_def exampleExecutor_def exampleWorld_def)
  have t: "fst (pageTitle recordingDriver 3 (world exampleExecutor)) = Inr ''Home''"
    "fst (pageTitle detachedDriver 3 (world exampleExecutor)) = Inl ?gone"
    by (simp_all add: detachedDriver_def recordingDriver_def exampleExecutor_def exampleWorld_def)
  have nt: "\<not> (\<exists>a b. ''Home'' = a @ ''Dashboard'' @ b)"
    using includesStr_iff[of "''Home''" "''Dashboard''"] by simp
  have a: "performAssertion recordingDriver ?s1 [(''user'', DStr ''alice'')] exampleExecutor = (None, exampleExecutor)"
    using performAssertion_without_selector[OF pg, where D = recordingDriver and stp = ?s1
        and td = "[(''user'', DStr ''alice'')]" and ev = "''Welcome alice''" and err = ?gone
        and rest = "[]" and t = "[]"] r
    by (simp add: hasSelector_def)
  have b: "fst (performAssertion recordingDriver ?s2 [] exampleExecutor) = None"
    using performAssertion_without_selector[OF pg, where D = recordingDriver and stp = ?s2
        and td = "[]" and ev = "[]" and err = ?gone and rest = "''blank''" and t = "[]"] r u
    by (auto simp: hasSelector_def)
  have c: "fst (performAssertion recordingDriver ?s3 [] exampleExecutor) \<noteq> None"
    using performAssertion_without_selector[OF pg, where D = recordingDriver and stp = ?s3
        and td = "[]" and ev = "[]" and err = ?gone and rest = "''Dashboard''" and t = "''Home''"] r t nt
    by (simp add: hasSelector_def)
  have d: "fst (performAssertion detachedDriver ?s3 [] exampleExecutor) = Some ?gone"
    using performAssertion_without_selector[OF pg, where D = detachedDriver and stp = ?s3
        and td = "[]" and ev = "[]" and err = ?gone and rest = "''Dashboard''" and t = "[]"] r t
    by (simp add: hasSelector_def)
  have e: "performAssertion recordingDriver ?s4 ?td exampleExecutor = (None, exampleExecutor)"
    using performAssertion_without_selector[OF pg, where D = recordingDriver and stp = ?s4
        and td = ?td and ev = "''Symbol(u)''" and err = ?gone and rest = "[]" and t = "[]"] r
    by (simp add: hasSelector_def)
  have f: "performAssertion recordingDriver ?s5 ?td exampleExecutor = (Some ?sym, exampleExecutor)"
    using performAssertion_without_selector[OF pg, where D = recordingDriver and stp = ?s5
        and td = ?td and ev = "[]" and err = ?sym and rest = "[]" and t = "[]"] r
    by (simp add: hasSelector_def)
  from a b c d e f show ?thesis by simp
qed

text \<open>
  The claim as stated fails for the title: the document title is \<^verbatim>\<open>Home\<close>, which contains
  the remainder of \<^verbatim>\<open>title:Home\<close>, and the assertion raises all the same, because reading
  the title rejects and nothing catches the rejection.
\<close>

theorem performAssertion_title_read_rejects:
  "includesStr (documentTitle (world exampleExecutor)) ''Home''
   \<and> performAssertion detachedDriver
       \<lparr>step = 7, action = ''assert'', expected = ''title:Home'', element = None, data = None\<rparr>
       [] exampleExecutor
     = (Some (Error ''Execution context was destroyed''), exampleExecutor)"
  by (simp add: performAssertion_def assertPage_def detachedDriver_def recordingDriver_def
      exampleExecutor_def exampleWorld_def resolveValue_def matchPlaceholder_def)

subsection \<open>The step loop\<close>

lemma executeStep_pass:
  assumes "performAction D stp td st = (None, st1)"
  shows "executeStep D stp td st
     = ([(''step'', Num (step stp)), (''status'', Str ''PASSED''),
         (''duration'', Num (dateNow D (world st1) - dateNow D (world st)))], st1)"
  using assms by (simp add: executeStep_def Let_def truthy_def)

lemma executeStep_fail:
  assumes "performAction D stp td st = (Some err, st1)"
  shows "\<exists>sr. executeStep D stp td st = (sr, st1)
       \<and> getProp sr ''status'' = Str ''FAILED''
       \<and> getProp sr ''error'' = errorValue err
       \<and> getProp sr ''step'' = Num (step stp)"
  using assms by (simp add: executeStep_def Let_def truthy_def getProp_def errorValue_def)

lemma stepLoop_all_pass:
  "actionOutcomes D td ss st = replicate (length ss) None \<Longrightarrow>
   \<exists>srs st'. stepLoop D td ss acc st = ((acc @ srs, ''PASSED'', Undefined), st')
     \<and> length srs = length ss
     \<and> list_all (\<lambda>sr. getProp sr ''status'' = Str ''PASSED'') srs
     \<and> map (\<lambda>sr. getProp sr ''step'') srs = map (\<lambda>s. Num (step s)) ss"
proof (induction ss arbitrary: acc st)
  case Nil
  show ?case by simp
next
  case (Cons stp ss)
  obtain r st1 where pa: "performAction D stp td st = (r, st1)" by (cases "performAction D stp td st")
  from Cons.prems pa have r: "r = None"
    and rest: "actionOutcomes D td ss st1 = replicate (length ss) None" by simp_all
  let ?sr = "[(''step'', Num (step stp)), (''status'', Str ''PASSED''),
         (''duration'', Num (dateNow D (world st1) - dateNow D (world st)))]"
  have es: "executeStep D stp td st = (?sr, st1)" using pa r by (simp add: executeStep_pass)
  from Cons.IH[OF rest, of "acc @ [?sr]"] obtain srs st' where
    ih: "stepLoop D td ss (acc @ [?sr]) st1 = (((acc @ [?sr]) @ srs, ''PASSED'', Undefined), st')"
      "length srs = length ss" "list_all (\<lambda>sr. getProp sr ''status'' = Str ''PASSED'') srs"
      "map (\<lambda>sr. getProp sr ''step'') srs = map (\<lambda>s. Num (step s)) ss"
    by blast
  have "stepLoop D td (stp # ss) acc st = ((acc @ (?sr # srs), ''PASSED'', Undefined), st')"
    using es ih(1) by (simp add: getProp_def)
  moreover have "length (?sr # srs) = length (stp # ss)" using ih(2) by simp
  moreover have "list_all (\<lambda>sr. getProp sr ''status'' = Str ''PASSED'') (?sr # srs)"
    using ih(3) by (simp add: getProp_def)
  moreover have "map (\<lambda>sr. getProp sr ''step'') (?sr # srs) = map (\<lambda>s. Num (step s)) (stp # ss)"
    using ih(4) by (simp add: getProp_def)
  ultimately show ?case by blast
qed

lemma stepLoop_first_failure:
  "k < length ss \<Longrightarrow> actionOutcomes D td (take (Suc k) ss) st = replicate k None @ [Some err] \<Longrightarrow>
   \<exists>srs st'. stepLoop D td ss acc st = ((acc @ srs, ''FAILED'', errorValue err), st')
     \<and> stepLoop D td (take (Suc k) ss) acc st = ((acc @ srs, ''FAILED'', errorValue err), st')
     \<and> length srs = Suc k
     \<and> list_all (\<lambda>sr. getProp sr ''status'' = Str ''PASSED'') (take k srs)
     \<and> getProp (srs ! k) ''status'' = Str ''FAILED''
     \<and> getProp (srs ! k) ''error'' = errorValue err
     \<and> map (\<lambda>sr. getProp sr ''step'') srs = map (\<lambda>s. Num (step s)) (take (Suc k) ss)"
proof (induction ss arbitrary: k acc st)
  case Nil
  then show ?case by simp
next
  case (Cons stp ss)
  obtain r st1 where pa: "performAction D stp td st = (r, st1)" by (cases "performAction D stp td st")
  show ?case
  proof (cases k)
    case 0
    with Cons.prems pa have r: "r = Some err" by simp
    from executeStep_fail[OF pa[unfolded r]] obtain sr where
      sr: "executeStep D stp td st = (sr, st1)" "getProp sr ''status'' = Str ''FAILED''"
        "getProp sr ''error'' = errorValue err" "getProp sr ''step'' = Num (step stp)"
      by blast
    have "stepLoop D td (stp # ss) acc st = ((acc @ [sr], ''FAILED'', errorValue err), st1)"
      "stepLoop D td (take (Suc k) (stp # ss)) acc st = ((acc @ [sr], ''FAILED'', errorValue err), st1)"
      using sr 0 by simp_all
    then show ?thesis using sr 0 by (intro exI[of _ "[sr]"] exI[of _ st1]) simp
  next
    case (Suc j)
    with Cons.prems pa have r: "r = None" and j: "j < length ss"
      and rest: "actionOutcomes D td (take (Suc j) ss) st1 = replicate j None @ [Some err]"
      by simp_all
    let ?sr = "[(''step'', Num (step stp)), (''status'', Str ''PASSED''),
         (''duration'', Num (dateNow D (world st1) - dateNow D (world st)))]"
    have es: "executeStep D stp td st = (?sr, st1)" using pa r by (simp add: executeStep_pass)
    from Cons.IH[OF j rest, of "acc @ [?sr]"] obtain srs st' where
      ih: "stepLoop D td ss (acc @ [?sr]) st1 = (((acc @ [?sr]) @ srs, ''FAILED'', errorValue err), st')"
        "stepLoop D td (take (Suc j) ss) (acc @ [?sr]) st1 = (((acc @ [?sr]) @ srs, ''FAILED'', errorValue err), st')"
        "length srs = Suc j" "list_all (\<lambda>sr. getProp sr ''status'' = Str ''PASSED'') (take j srs)"
        "getProp (srs ! j) ''status'' = Str ''FAILED''" "getProp (srs ! j) ''error'' = errorValue err"
        "map (\<lambda>sr. getProp sr ''step'') srs = map (\<lambda>s. Num (step s)) (take (Suc j) ss)"
      by blast
    have "stepLoop D td (stp # ss) acc st = ((acc @ (?sr # srs), ''FAILED'', errorValue err), st')"
      "stepLoop D td (take (Suc k) (stp # ss)) acc st = ((acc @ (?sr # srs), ''FAILED'', errorValue err), st')"
      using es ih(1,2) Suc by (simp_all add: getProp_def)
    moreover have "length (?sr # srs) = Suc k" using ih(3) Suc by simp
    moreover have "list_all (\<lambda>sr. getProp sr ''status'' = Str ''PASSED'') (take k (?sr # srs))"
      using ih(4) Suc by (simp add: getProp_def)
    moreover have "getProp ((?sr # srs) ! k) ''status'' = Str ''FAILED''"
      "getProp ((?sr # srs) ! k) ''error'' = errorValue err"
      using ih(5,6) Suc by simp_all
    moreover have "map (\<lambda>sr. getProp sr ''step'') (?sr # srs) = map (\<lambda>s. Num (step s)) (take (Suc k) (stp # ss))"
      using ih(7) Suc by (simp add: getProp_def)
    ultimately show ?thesis by blast
  qed
qed

lemma keepsHandles_refl [simp]: "keepsHandles st st"
  by (simp add: keepsHandles_def)

lemma keepsHandles_world [simp]: "keepsHandles st (st\<lparr>world := w\<rparr>)"
  by (simp add: keepsHandles_def)

lemma keepsHandles_trans: "keepsHandles a b \<Longrightarrow> keepsHandles b c \<Longrightarrow> keepsHandles a c"
  by (simp add: keepsHandles_def)

lemma onPage_keeps [simp]: "keepsHandles st (snd (onPage D p c st))"
  by (simp add: onPage_def split: prod.splits)

lemma withSelector_keeps:
  "(\<And>sel s. keepsHandles s (snd (go sel s))) \<Longrightarrow> keepsHandles st (snd (withSelector name stp go st))"
  by (simp add: withSelector_def split: sum.splits)

lemma withResolved_keeps:
  "(\<And>v s. keepsHandles s (snd (go v s))) \<Longrightarrow> keepsHandles st (snd (withResolved e d go st))"
  by (simp add: withResolved_def split: sum.splits)

lemma assertPage_keeps [simp]: "keepsHandles st (snd (assertPage D p ev st))"
  by (simp add: assertPage_def Let_def split: prod.splits sum.splits)

lemma assertElement_keeps [simp]: "keepsHandles st (snd (assertElement D p sel ev st))"
  by (simp add: assertElement_def onPage_def keepsHandles_def
      split: prod.splits sum.splits option.splits)

lemma performAssertion_keeps [simp]: "keepsHandles st (snd (performAssertion D stp td st))"
  by (simp add: performAssertion_def split: option.splits sum.splits)

lemma performAction_keeps [simp]: "keepsHandles st (snd (performAction D stp td st))"
  by (auto simp: performAction_def Let_def split: option.splits
      intro!: withSelector_keeps withResolved_keeps)

lemma executeStep_keeps [simp]: "keepsHandles st (snd (executeStep D stp td st))"
proof -
  have "snd (executeStep D stp td st) = snd (performAction D stp td st)"
    by (simp add: executeStep_def Let_def split: prod.splits)
  then show ?thesis by simp
qed

lemma stepLoop_keeps: "keepsHandles st (snd (stepLoop D td ss acc st))"
proof (induction ss arbitrary: acc st)
  case Nil
  show ?case by simp
next
  case (Cons stp ss)
  obtain sr st1 where es: "executeStep D stp td st = (sr, st1)" by (cases "executeStep D stp td st")
  have k1: "keepsHandles st st1" using executeStep_keeps[of st D stp td] es by simp
  show ?case
  proof (cases "getProp sr ''status'' = Str ''FAILED''")
    case True
    then show ?thesis using es k1 by simp
  next
    case False
    then have "snd (stepLoop D td (stp # ss) acc st) = snd (stepLoop D td ss (acc @ [sr]) st1)"
      using es by simp
    then show ?thesis using keepsHandles_trans[OF k1 Cons.IH[of st1 "acc @ [sr]"]] by simp
  qed
qed

lemma captureArtifacts_keeps [simp]: "keepsHandles st (snd (captureArtifacts D cid arg st))"
  by (auto simp: captureArtifacts_def onPage_def Let_def keepsHandles_def
      split: option.splits prod.splits sum.splits)

lemma getProp_enhance:
  assumes "distinct (map fst result)" "k \<noteq> ''executedAt''" "k \<noteq> ''browserInfo''"
  shows "getProp (enhance rt now result) k = getProp result k"
  using assms by (simp add: getProp_def enhance_lookup)

lemma buildResult_distinct: "distinct (map fst (buildResult cid status dur srs artifacts now error))"
  by (simp add: buildResult_def Let_def)

lemma buildResult_props:
  "getProp (buildResult cid status dur srs artifacts now error) ''status'' = Str status"
  "getProp (buildResult cid status dur srs artifacts now error) ''stepResults'' = Arr (map Obj srs)"
  "getProp (buildResult cid status dur srs artifacts now error) ''testCaseId'' = Str cid"
  "getProp (buildResult cid status dur srs artifacts now error) ''duration'' = Num dur"
  by (simp_all add: buildResult_def Let_def getProp_def)

lemma executeTestCase_unfold:
  assumes pg: "page st = Some p" and nl: "noListeners (resultHandler st)"
    and sl: "stepLoop D (testData tc) (steps tc) [] st = ((srs, status, error), st1)"
    and ca: "captureArtifacts D (caseId tc)
               (if status = ''FAILED'' then Some True else captureOnSuccess opts) st1 = (artifacts, st2)"
  shows "executeTestCase D rt tc opts st
     = (Inr (enhance rt (dateNow D (world st2))
               (buildResult (caseId tc) status (dateNow D (world st1) - dateNow D (world st)) srs artifacts
                  (dateNow D (world st2)) error)),
        st2\<lparr>resultHandler := (resultHandler st2)\<lparr>results := results (resultHandler st2)
             @ [buildResult (caseId tc) status (dateNow D (world st1) - dateNow D (world st)) srs artifacts
                  (dateNow D (world st2)) error]\<rparr>\<rparr>)"
proof -
  have k1: "keepsHandles st st1" using stepLoop_keeps[of st D "testData tc" "steps tc" "[]"] sl by simp
  have k2: "keepsHandles st1 st2" using captureArtifacts_keeps[of st1 D] ca by (metis snd_conv)
  have "resultHandler st2 = resultHandler st" using k1 k2 by (simp add: keepsHandles_def)
  then have nl2: "onTestComplete (events (resultHandler st2)) = None"
    "onTestFailure (events (resultHandler st2)) = None"
    using nl by (simp_all add: noListeners_def)
  show ?thesis
    unfolding executeTestCase_def
    using pg sl ca processResult_no_listeners[OF nl2]
    by (simp add: Let_def)
qed

lemma executeTestCase_from_loop:
  assumes pg: "page st = Some p" and nl: "noListeners (resultHandler st)"
    and sl: "stepLoop D (testData tc) (steps tc) [] st = ((srs, status, error), st1)"
  shows "\<exists>r st'. executeTestCase D rt tc opts st = (Inr r, st')
     \<and> getProp r ''status'' = Str status
     \<and> getProp r ''stepResults'' = Arr (map Obj srs)"
proof -
  obtain artifacts st2 where ca: "captureArtifacts D (caseId tc)
      (if status = ''FAILED'' then Some True else captureOnSuccess opts) st1 = (artifacts, st2)"
    by (cases "captureArtifacts D (caseId tc) (if status = ''FAILED'' then Some True else captureOnSuccess opts) st1")
  show ?thesis
    using executeTestCase_unfold[OF pg nl sl ca, of rt]
    by (simp add: getProp_enhance buildResult_distinct buildResult_props)
qed

lemma executeTestCase_same_loop:
  assumes "testData tc' = testData tc" "caseId tc' = caseId tc"
    and "stepLoop D (testData tc) (steps tc') [] st = stepLoop D (testData tc) (steps tc) [] st"
  shows "executeTestCase D rt tc' opts st = executeTestCase D rt tc opts st"
  using assms by (cases "page st") (simp_all add: executeTestCase_def)

text \<open>
  Claim C1, as amended. On an executor that holds a page (and whose handler has no
  listeners, as the constructor builds it): if the actions of all N steps succeed, the
  returned result has status PASSED and N step results, all PASSED. If the action of step
  k + 1 is the first to throw, the result has status FAILED and k + 1 step results, the
  first k PASSED and the last FAILED; the last carries the message of the error when that
  message is not empty (the fixed text \<^verbatim>\<open>Step execution failed\<close> when the thrown value is
  not an \<^verbatim>\<open>Error\<close>) and no \<^verbatim>\<open>error\<close> property when it is empty; and the run, result and
  final state, is that of the case cut after step k + 1, so no later step is attempted.
\<close>

theorem executeTestCase_fail_fast:
  assumes "page st = Some p" and "noListeners (resultHandler st)"
  shows "(actionOutcomes D (testData tc) (steps tc) st = replicate (length (steps tc)) None \<longrightarrow>
           (\<exists>r st' srs. executeTestCase D rt tc opts st = (Inr r, st')
              \<and> getProp r ''status'' = Str ''PASSED''
              \<and> getProp r ''stepResults'' = Arr (map Obj srs)
              \<and> length srs = length (steps tc)
              \<and> list_all (\<lambda>sr. getProp sr ''status'' = Str ''PASSED'') srs))
       \<and> (k < length (steps tc)
            \<and> actionOutcomes D (testData tc) (take (Suc k) (steps tc)) st = replicate k None @ [Some err] \<longrightarrow>
           (\<exists>r st' srs. executeTestCase D rt tc opts st = (Inr r, st')
              \<and> getProp r ''status'' = Str ''FAILED''
              \<and> getProp r ''stepResults'' = Arr (map Obj srs)
              \<and> length srs = Suc k
              \<and> list_all (\<lambda>sr. getProp sr ''status'' = Str ''PASSED'') (take k srs)
              \<and> getProp (srs ! k) ''status'' = Str ''FAILED''
              \<and> getProp (srs ! k) ''error''
                  = (if messageOr ''Step execution failed'' err = [] then Undefined
                     else Str (messageOr ''Step execution failed'' err))
              \<and> executeTestCase D rt (tc\<lparr>steps := take (Suc k) (steps tc)\<rparr>) opts st = (Inr r, st')))"
proof (intro conjI impI)
  assume all: "actionOutcomes D (testData tc) (steps tc) st = replicate (length (steps tc)) None"
  from stepLoop_all_pass[OF all, of "[]"] obtain srs st1 where
    sl: "stepLoop D (testData tc) (steps tc) [] st = ((srs, ''PASSED'', Undefined), st1)"
    and props: "length srs = length (steps tc)" "list_all (\<lambda>sr. getProp sr ''status'' = Str ''PASSED'') srs"
    by auto
  from executeTestCase_from_loop[OF assms sl, of rt opts] props
  show "\<exists>r st' srs. executeTestCase D rt tc opts st = (Inr r, st')
      \<and> getProp r ''status'' = Str ''PASSED'' \<and> getProp r ''stepResults'' = Arr (map Obj srs)
      \<and> length srs = length (steps tc) \<and> list_all (\<lambda>sr. getProp sr ''status'' = Str ''PASSED'') srs"
    by blast
next
  assume h: "k < length (steps tc)
      \<and> actionOutcomes D (testData tc) (take (Suc k) (steps tc)) st = replicate k None @ [Some err]"
  from stepLoop_first_failure[of k "steps tc" D "testData tc" st err "[]"] h obtain srs st1 where
    sl: "stepLoop D (testData tc) (steps tc) [] st = ((srs, ''FAILED'', errorValue err), st1)"
    and sl': "stepLoop D (testData tc) (take (Suc k) (steps tc)) [] st = ((srs, ''FAILED'', errorValue err), st1)"
    and props: "length srs = Suc k" "list_all (\<lambda>sr. getProp sr ''status'' = Str ''PASSED'') (take k srs)"
      "getProp (srs ! k) ''status'' = Str ''FAILED''" "getProp (srs ! k) ''error'' = errorValue err"
    by auto
  have same: "executeTestCase D rt (tc\<lparr>steps := take (Suc k) (steps tc)\<rparr>) opts st
      = executeTestCase D rt tc opts st"
    by (rule executeTestCase_same_loop) (simp_all add: sl sl')
  from executeTestCase_from_loop[OF assms sl, of rt opts] obtain r st' where
    r: "executeTestCase D rt tc opts st = (Inr r, st')" "getProp r ''status'' = Str ''FAILED''"
      "getProp r ''stepResults'' = Arr (map Obj srs)"
    by blast
  show "\<exists>r st' srs. executeTestCase D rt tc opts st = (Inr r, st')
      \<and> getProp r ''status'' = Str ''FAILED'' \<and> getProp r ''stepResults'' = Arr (map Obj srs)
      \<and> length srs = Suc k \<and> list_all (\<lambda>sr. getProp sr ''status'' = Str ''PASSED'') (take k srs)
      \<and> getProp (srs ! k) ''status'' = Str ''FAILED''
      \<and> getProp (srs ! k) ''error''
          = (if messageOr ''Step execution failed'' err = [] then Undefined
             else Str (messageOr ''Step execution failed'' err))
      \<and> executeTestCase D rt (tc\<lparr>steps := take (Suc k) (steps tc)\<rparr>) opts st = (Inr r, st')"
    using r props same by (intro exI[of _ r] exI[of _ st'] exI[of _ srs]) (simp add: errorValue_def)
qed

lemmas exampleDefs = exampleCase_def exampleOptions_def exampleExecutor_def exampleWorld_def
  recordingDriver_def recordCall_def newHandler_def

lemmas actionDefs = performAction_def onPage_def withSelector_def withResolved_def requireSelector_def mergeData_def
  spreadInto_def resolveValue_def matchPlaceholder_def isWordChar_def getMember_def jsString_def
  inheritedNames_def Let_def

lemma example_outcomes:
  "actionOutcomes recordingDriver (testData exampleCase) (take (Suc 1) (steps exampleCase)) exampleExecutor
     = replicate 1 None @ [Some (Error ''Timeout 30000ms exceeded.'')]"
  by (simp add: exampleDefs actionDefs)

theorem executeTestCase_fail_fast_witness:
  "getProp (projr (fst (executeTestCase recordingDriver exampleRuntime exampleCase exampleOptions
       exampleExecutor))) ''status'' = Str ''FAILED''
   \<and> executeTestCase recordingDriver exampleRuntime (exampleCase\<lparr>steps := take 2 (steps exampleCase)\<rparr>)
       exampleOptions exampleExecutor
     = executeTestCase recordingDriver exampleRuntime exampleCase exampleOptions exampleExecutor
   \<and> getProp (projr (fst (executeTestCase recordingDriver exampleRuntime
       (exampleCase\<lparr>steps := take 1 (steps exampleCase)\<rparr>) exampleOptions exampleExecutor))) ''status''
     = Str ''PASSED''"
proof -
  have pg: "page exampleExecutor = Some 3" and nl: "noListeners (resultHandler exampleExecutor)"
    by (simp_all add: exampleExecutor_def noListeners_def newHandler_def)
  have k: "1 < length (steps exampleCase)" by (simp add: exampleCase_def)
  have one: "actionOutcomes recordingDriver (testData (exampleCase\<lparr>steps := take 1 (steps exampleCase)\<rparr>))
        (steps (exampleCase\<lparr>steps := take 1 (steps exampleCase)\<rparr>)) exampleExecutor
      = replicate (length (steps (exampleCase\<lparr>steps := take 1 (steps exampleCase)\<rparr>))) None"
    by (simp add: exampleDefs actionDefs)
  have a: "getProp (projr (fst (executeTestCase recordingDriver exampleRuntime exampleCase exampleOptions
        exampleExecutor))) ''status'' = Str ''FAILED''
      \<and> executeTestCase recordingDriver exampleRuntime (exampleCase\<lparr>steps := take 2 (steps exampleCase)\<rparr>)
        exampleOptions exampleExecutor
      = executeTestCase recordingDriver exampleRuntime exampleCase exampleOptions exampleExecutor"
    using executeTestCase_fail_fast[OF pg nl, where D = recordingDriver and tc = exampleCase and k = 1
        and err = "Error ''Timeout 30000ms exceeded.''" and rt = exampleRuntime and opts = exampleOptions]
      k example_outcomes
    by (auto simp: numeral_2_eq_2)
  have b: "getProp (projr (fst (executeTestCase recordingDriver exampleRuntime
        (exampleCase\<lparr>steps := take 1 (steps exampleCase)\<rparr>) exampleOptions exampleExecutor))) ''status''
      = Str ''PASSED''"
    using executeTestCase_fail_fast[OF pg nl, where D = recordingDriver
        and tc = "exampleCase\<lparr>steps := take 1 (steps exampleCase)\<rparr>" and k = 0
        and err = "Error []" and rt = exampleRuntime and opts = exampleOptions] one
    by auto
  from a b show ?thesis by simp
qed

text \<open>
  The claim as stated fails for an error with the empty message: the failed step result
  has no \<^verbatim>\<open>error\<close> property.
\<close>

theorem executeTestCase_empty_message_not_carried:
  "actionOutcomes quietDriver (testData quietCase) (steps quietCase) exampleExecutor = [Some (Error [])]
   \<and> \<not> isl (fst (executeTestCase quietDriver exampleRuntime quietCase exampleOptions exampleExecutor))
   \<and> getProp (projr (fst (executeTestCase quietDriver exampleRuntime quietCase exampleOptions
         exampleExecutor))) ''stepResults''
       = Arr [Obj [(''step'', Num 1), (''status'', Str ''FAILED''), (''duration'', Num 0)]]"
proof -
  have pg: "page exampleExecutor = Some 3" and nl: "noListeners (resultHandler exampleExecutor)"
    by (simp_all add: exampleExecutor_def noListeners_def newHandler_def)
  have sl: "stepLoop quietDriver (testData quietCase) (steps quietCase) [] exampleExecutor
      = (([[(''step'', Num 1), (''status'', Str ''FAILED''), (''duration'', Num 0)]], ''FAILED'', Undefined),
         exampleExecutor)"
    by (simp add: quietCase_def quietDriver_def failQuietly_def exampleDefs actionDefs executeStep_def
        messageOr_def truthy_def getProp_def)
  have ao: "actionOutcomes quietDriver (testData quietCase) (steps quietCase) exampleExecutor
      = [Some (Error [])]"
    by (simp add: quietCase_def quietDriver_def failQuietly_def exampleDefs actionDefs)
  from executeTestCase_from_loop[OF pg nl sl, where rt = exampleRuntime and opts = exampleOptions] ao
  show ?thesis by auto
qed


subsection \<open>Suites\<close>

lemma executeTestCase_no_page:
  "page st = None \<Longrightarrow> executeTestCase D rt tc opts st
     = (Inl (Error ''Browser not initialized. Call initialize() first.''), st)"
  by (simp add: executeTestCase_def)

lemma executeTestCase_Inl:
  assumes "noListeners (resultHandler st)" "executeTestCase D rt tc opts st = (Inl err, st1)"
  shows "page st = None \<and> st1 = st \<and> err = Error ''Browser not initialized. Call initialize() first.''"
proof (cases "page st")
  case None
  then show ?thesis using assms(2) by (simp add: executeTestCase_no_page)
next
  case (Some p)
  obtain srs status error st' where
    sl: "stepLoop D (testData tc) (steps tc) [] st = ((srs, status, error), st')"
    by (metis surj_pair)
  from executeTestCase_from_loop[OF Some assms(1) sl, of rt opts] assms(2)
  show ?thesis by auto
qed

lemma executeTestCase_Inr_id:
  assumes "executeTestCase D rt tc opts st = (Inr r, st1)"
  shows "getProp r ''testCaseId'' = Str (caseId tc)"
proof (cases "page st")
  case None
  then show ?thesis using assms by (simp add: executeTestCase_no_page)
next
  case (Some p)
  obtain srs status error st' where
    sl: "stepLoop D (testData tc) (steps tc) [] st = ((srs, status, error), st')"
    by (metis surj_pair)
  obtain artifacts st2 where ca: "captureArtifacts D (caseId tc)
      (if status = ''FAILED'' then Some True else captureOnSuccess opts) st' = (artifacts, st2)"
    by (metis surj_pair)
  let ?b = "buildResult (caseId tc) status (dateNow D (world st') - dateNow D (world st)) srs artifacts
      (dateNow D (world st2)) error"
  obtain h where pr: "processResult rt (dateNow D (world st2)) ?b (resultHandler st2) = (Inr r, h)"
    using assms Some sl ca
    by (cases "processResult rt (dateNow D (world st2)) ?b (resultHandler st2)")
      (simp add: executeTestCase_def Let_def)
  have "r = enhance rt (dateNow D (world st2)) ?b" using processResult_Inr[OF pr] by simp
  then show ?thesis by (simp add: getProp_enhance buildResult_distinct buildResult_props)
qed

lemma betweenTests_no_page: "page st = None \<Longrightarrow> betweenTests D opts st = (None, st)"
  by (simp add: betweenTests_def split: option.splits)

lemma failedResult_props:
  "getProp (failedResult D tc err st) ''testCaseId'' = Str (caseId tc)"
  "getProp (failedResult D tc err st) ''status'' = Str ''FAILED''"
  "getProp (failedResult D tc err st) ''duration'' = Num 0"
  "getProp (failedResult D tc err st) ''error'' = Str (messageOr ''Test execution failed'' err)"
  by (simp_all add: failedResult_def getProp_def)

lemma suiteLoop_no_page:
  "page st = None \<Longrightarrow> suiteLoop D rt opts cases rs st
     = (Inr (rs @ map (\<lambda>tc. failedResult D tc
            (Error ''Browser not initialized. Call initialize() first.'') st) cases), st)"
  by (induction cases arbitrary: rs) (simp_all add: executeTestCase_no_page betweenTests_no_page)

lemma suiteLoop_prefix:
  "suiteLoop D rt opts cases rs st = (Inr out, st') \<Longrightarrow>
   \<exists>new. out = rs @ new \<and> length new \<le> length cases
     \<and> map (\<lambda>r. getProp r ''testCaseId'') new = map (\<lambda>tc. Str (caseId tc)) (take (length new) cases)
     \<and> (length new < length cases \<longrightarrow>
          stopOnFailure opts = Some True \<and> new \<noteq> [] \<and> getProp (last new) ''status'' = Str ''FAILED'')
     \<and> suiteLoop D rt opts (take (length new) cases) rs st = (Inr out, st')"
proof (induction cases arbitrary: rs st)
  case Nil
  then show ?case by simp
next
  case (Cons tc rest)
  obtain e st1 where ex: "executeTestCase D rt tc opts st = (e, st1)" by (metis surj_pair)
  show ?case
  proof (cases e)
    case (Inr result)
    have rid: "getProp result ''testCaseId'' = Str (caseId tc)"
      using executeTestCase_Inr_id[of D rt tc opts st result st1] ex Inr by simp
    show ?thesis
    proof (cases "getProp result ''status'' = Str ''FAILED'' \<and> stopOnFailure opts = Some True")
      case True
      then have out: "out = rs @ [result]" "st' = st1" using Cons.prems ex Inr by simp_all
      show ?thesis
        using out True ex Inr rid by (intro exI[of _ "[result]"]) simp
    next
      case False
      obtain b st2 where bt: "betweenTests D opts st1 = (b, st2)" by (metis surj_pair)
      from Cons.prems ex Inr False bt have b: "b = None"
        and rec: "suiteLoop D rt opts rest (rs @ [result]) st2 = (Inr out, st')"
        by (auto split: option.splits)
      from Cons.IH[OF rec] obtain new where
        ih: "out = (rs @ [result]) @ new" "length new \<le> length rest"
          "map (\<lambda>r. getProp r ''testCaseId'') new = map (\<lambda>tc. Str (caseId tc)) (take (length new) rest)"
          "length new < length rest \<longrightarrow>
             stopOnFailure opts = Some True \<and> new \<noteq> [] \<and> getProp (last new) ''status'' = Str ''FAILED''"
          "suiteLoop D rt opts (take (length new) rest) (rs @ [result]) st2 = (Inr out, st')"
        by blast
      have "suiteLoop D rt opts (take (length (result # new)) (tc # rest)) rs st = (Inr out, st')"
        using ex Inr False bt b ih(5) by auto
      then show ?thesis
        using ih rid by (intro exI[of _ "result # new"]) auto
    qed
  next
    case (Inl err)
    obtain b st2 where bt: "betweenTests D opts st1 = (b, st2)" by (metis surj_pair)
    let ?f = "failedResult D tc err st1"
    from Cons.prems ex Inl bt have b: "b = None"
      and rec: "suiteLoop D rt opts rest (rs @ [?f]) st2 = (Inr out, st')"
      by (auto split: option.splits)
    from Cons.IH[OF rec] obtain new where
      ih: "out = (rs @ [?f]) @ new" "length new \<le> length rest"
        "map (\<lambda>r. getProp r ''testCaseId'') new = map (\<lambda>tc. Str (caseId tc)) (take (length new) rest)"
        "length new < length rest \<longrightarrow>
           stopOnFailure opts = Some True \<and> new \<noteq> [] \<and> getProp (last new) ''status'' = Str ''FAILED''"
        "suiteLoop D rt opts (take (length new) rest) (rs @ [?f]) st2 = (Inr out, st')"
      by blast
    have "suiteLoop D rt opts (take (length (?f # new)) (tc # rest)) rs st = (Inr out, st')"
      using ex Inl bt b ih(5) by auto
    then show ?thesis
      using ih failedResult_props(1)[of D tc err st1] by (intro exI[of _ "?f # new"]) auto
  qed
qed

text \<open>
  Claim C5. When executing a case raises an exception that escapes \<^verbatim>\<open>executeTestCase\<close>,
  the suite records the case as a FAILED result with duration 0 whose error is the message
  of the exception, and goes on with the next case. In particular, on an executor without
  a page every case of the list is recorded so. Whenever the suite returns a list, the list
  holds one result per case of an initial segment of the cases, in order and under the
  case's id; the segment is shorter than the list of cases only when \<^verbatim>\<open>stopOnFailure\<close> is
  set and its last result is FAILED; and running the suite on that segment alone gives the
  same list and the same final state, so the cases beyond it are never attempted.
\<close>

theorem executeTestSuite_one_result_per_case:
  "(noListeners (resultHandler st) \<and> executeTestCase D rt tc opts st = (Inl err, stA) \<longrightarrow>
      suiteLoop D rt opts (tc # rest) rs st
        = suiteLoop D rt opts rest (rs @ [failedResult D tc err st]) st
      \<and> getProp (failedResult D tc err st) ''testCaseId'' = Str (caseId tc)
      \<and> getProp (failedResult D tc err st) ''status'' = Str ''FAILED''
      \<and> getProp (failedResult D tc err st) ''duration'' = Num 0
      \<and> getProp (failedResult D tc err st) ''error'' = Str (messageOr ''Test execution failed'' err))
   \<and> (page st = None \<longrightarrow>
        executeTestSuite D rt cases opts st
          = (Inr (map (\<lambda>tc. failedResult D tc
                 (Error ''Browser not initialized. Call initialize() first.'') st) cases), st))
   \<and> (executeTestSuite D rt cases opts st = (Inr out, st') \<longrightarrow>
        length out \<le> length cases
        \<and> map (\<lambda>r. getProp r ''testCaseId'') out = map (\<lambda>tc. Str (caseId tc)) (take (length out) cases)
        \<and> (length out < length cases \<longrightarrow>
             stopOnFailure opts = Some True \<and> getProp (last out) ''status'' = Str ''FAILED'')
        \<and> executeTestSuite D rt (take (length out) cases) opts st = (Inr out, st'))"
proof (intro conjI impI)
  assume h: "noListeners (resultHandler st) \<and> executeTestCase D rt tc opts st = (Inl err, stA)"
  then have np: "page st = None" "stA = st"
    using executeTestCase_Inl[of st D rt tc opts err stA] by simp_all
  show "suiteLoop D rt opts (tc # rest) rs st
      = suiteLoop D rt opts rest (rs @ [failedResult D tc err st]) st"
    using h np by (simp add: betweenTests_no_page)
next
  assume "page st = None"
  then show "executeTestSuite D rt cases opts st
      = (Inr (map (\<lambda>tc. failedResult D tc
             (Error ''Browser not initialized. Call initialize() first.'') st) cases), st)"
    by (simp add: executeTestSuite_def suiteLoop_no_page)
next
  assume r: "executeTestSuite D rt cases opts st = (Inr out, st')"
  from suiteLoop_prefix[of D rt opts cases "[]" st out st'] r obtain new where
    n: "out = new" "length new \<le> length cases"
      "map (\<lambda>r. getProp r ''testCaseId'') new = map (\<lambda>tc. Str (caseId tc)) (take (length new) cases)"
      "length new < length cases \<longrightarrow>
         stopOnFailure opts = Some True \<and> new \<noteq> [] \<and> getProp (last new) ''status'' = Str ''FAILED''"
      "suiteLoop D rt opts (take (length new) cases) [] st = (Inr out, st')"
    by (auto simp: executeTestSuite_def)
  show "length out \<le> length cases" using n by simp
  show "map (\<lambda>r. getProp r ''testCaseId'') out = map (\<lambda>tc. Str (caseId tc)) (take (length out) cases)"
    using n by simp
  show "executeTestSuite D rt (take (length out) cases) opts st = (Inr out, st')"
    using n by (simp add: executeTestSuite_def)
  assume "length out < length cases"
  then show "stopOnFailure opts = Some True" "getProp (last out) ''status'' = Str ''FAILED''"
    using n by simp_all
qed (simp_all add: failedResult_props)

theorem executeTestSuite_one_result_per_case_witness:
  "length (projr (fst (executeTestSuite recordingDriver exampleRuntime [exampleCase, quietCase]
       exampleOptions (exampleExecutor\<lparr>page := None\<rparr>)))) = 2
   \<and> map (\<lambda>r. getProp r ''testCaseId'')
       (projr (fst (executeTestSuite recordingDriver exampleRuntime [exampleCase, quietCase]
          exampleOptions (exampleExecutor\<lparr>page := None\<rparr>)))) = [Str ''login'', Str ''quiet'']
   \<and> getProp (hd (projr (fst (executeTestSuite recordingDriver exampleRuntime [exampleCase, quietCase]
       exampleOptions (exampleExecutor\<lparr>page := None\<rparr>))))) ''error''
     = Str ''Browser not initialized. Call initialize() first.''
   \<and> getProp (failedResult recordingDriver exampleCase
         (Error ''Browser not initialized. Call initialize() first.'')
         (exampleExecutor\<lparr>page := None\<rparr>)) ''duration'' = Num 0"
proof -
  let ?st = "exampleExecutor\<lparr>page := None\<rparr>"
  let ?e = "Error ''Browser not initialized. Call initialize() first.''"
  let ?out = "map (\<lambda>tc. failedResult recordingDriver tc ?e ?st) [exampleCase, quietCase]"
  have np: "page ?st = None" by simp
  have nl: "noListeners (resultHandler ?st)"
    by (simp add: exampleExecutor_def noListeners_def newHandler_def)
  have ex: "executeTestCase recordingDriver exampleRuntime exampleCase exampleOptions ?st = (Inl ?e, ?st)"
    by (simp add: executeTestCase_no_page)
  note inst = executeTestSuite_one_result_per_case[where st = ?st and D = recordingDriver
      and rt = exampleRuntime and cases = "[exampleCase, quietCase]" and opts = exampleOptions
      and tc = exampleCase and err = ?e and stA = ?st and rest = "[quietCase]" and rs = "[]"
      and out = ?out and st' = ?st]
  have suite: "executeTestSuite recordingDriver exampleRuntime [exampleCase, quietCase] exampleOptions ?st
      = (Inr ?out, ?st)"
    using inst np by blast
  have ids: "map (\<lambda>r. getProp r ''testCaseId'') ?out
      = map (\<lambda>tc. Str (caseId tc)) (take (length ?out) [exampleCase, quietCase])"
    using inst suite by blast
  have dur: "getProp (failedResult recordingDriver exampleCase ?e ?st) ''duration'' = Num 0"
    using inst nl ex by blast
  show ?thesis
    using suite ids dur by (simp add: failedResult_props messageOr_def exampleCase_def quietCase_def)
qed

subsection \<open>Cleanup\<close>

lemmas cleanupDefs = cleanup_def releasePage_def releaseContext_def releaseBrowser_def

lemma cleanup_recording:
  "closedHandles (world (cleanup recordingDriver exampleExecutor)) = [3, 2, 1]
   \<and> page (cleanup recordingDriver exampleExecutor) = None
   \<and> browserContext (cleanup recordingDriver exampleExecutor) = None
   \<and> browser (cleanup recordingDriver exampleExecutor) = None"
  by (simp add: cleanupDefs recordClose_def recordingDriver_def exampleExecutor_def exampleWorld_def)

lemma cleanup_when_closes_succeed:
  assumes "\<And>h w. fst (closePage D h w) = None" "\<And>h w. fst (closeContext D h w) = None"
    "\<And>h w. fst (closeBrowser D h w) = None"
  shows "page (cleanup D st) = None \<and> browserContext (cleanup D st) = None
       \<and> browser (cleanup D st) = None \<and> cleanup D (cleanup D st) = cleanup D st"
proof -
  have p: "\<And>h w. \<exists>w'. closePage D h w = (None, w')" using assms(1) by (metis fst_conv surj_pair)
  have c: "\<And>h w. \<exists>w'. closeContext D h w = (None, w')" using assms(2) by (metis fst_conv surj_pair)
  have b: "\<And>h w. \<exists>w'. closeBrowser D h w = (None, w')" using assms(3) by (metis fst_conv surj_pair)
  obtain st1 where r1: "releasePage D st = Inr st1" "page st1 = None"
    "browserContext st1 = browserContext st" "browser st1 = browser st"
  proof (cases "page st")
    case None
    then show ?thesis using that by (simp add: releasePage_def)
  next
    case (Some h)
    from p[of h "world st"] obtain w' where "closePage D h (world st) = (None, w')" by blast
    then show ?thesis using that Some by (simp add: releasePage_def)
  qed
  obtain st2 where r2: "releaseContext D st1 = Inr st2" "page st2 = None"
    "browserContext st2 = None" "browser st2 = browser st"
  proof (cases "browserContext st1")
    case None
    then show ?thesis using that r1 by (simp add: releaseContext_def)
  next
    case (Some h)
    from c[of h "world st1"] obtain w' where "closeContext D h (world st1) = (None, w')" by blast
    then show ?thesis using that Some r1 by (simp add: releaseContext_def)
  qed
  obtain st3 where r3: "releaseBrowser D st2 = Inr st3" "page st3 = None"
    "browserContext st3 = None" "browser st3 = None"
  proof (cases "browser st2")
    case None
    then show ?thesis using that r2 by (simp add: releaseBrowser_def)
  next
    case (Some h)
    from b[of h "world st2"] obtain w' where "closeBrowser D h (world st2) = (None, w')" by blast
    then show ?thesis using that Some r2 by (simp add: releaseBrowser_def)
  qed
  have cl: "cleanup D st = st3" using r1 r2 r3 by (simp add: cleanup_def)
  have "cleanup D st3 = st3" using r3 by (simp add: cleanupDefs)
  then show ?thesis using cl r3 by simp
qed

text \<open>
  Claim C7. \<^verbatim>\<open>cleanup\<close> never raises, and when no close raises it releases the page, the
  context and the browser in that order and a second call changes nothing (the lemmas
  above). When closing the page raises, the single \<^verbatim>\<open>try\<close> is left at once: on the
  initialized example executor the page, the context and the browser are all still held
  afterwards, no handle has been closed, and a second call tries the page again.
\<close>

theorem cleanup_stops_at_first_close_error:
  "page (cleanup failingCloseDriver exampleExecutor) = Some 3
   \<and> browserContext (cleanup failingCloseDriver exampleExecutor) = Some 2
   \<and> browser (cleanup failingCloseDriver exampleExecutor) = Some 1
   \<and> closedHandles (world (cleanup failingCloseDriver exampleExecutor)) = []
   \<and> clock (world (cleanup failingCloseDriver exampleExecutor)) = 1001
   \<and> clock (world (cleanup failingCloseDriver (cleanup failingCloseDriver exampleExecutor))) = 1002"
  by (simp add: cleanupDefs failingCloseDriver_def failClose_def recordingDriver_def exampleExecutor_def
      exampleWorld_def)


section \<open>The retry helper: the claim\<close>

lemma invocations_append [simp]: "invocations (a @ b) = invocations a + invocations b"
  by (simp add: invocations_def)

lemma invocations_round [simp]: "invocations (retryRound cfg i) = 1"
  by (simp add: invocations_def retryRound_def)

lemma invocations_simps [simp]: "invocations [] = 0" "invocations (Invoked # tr) = Suc (invocations tr)"
  "invocations (Warned a b # tr) = invocations tr" "invocations (Waited d # tr) = invocations tr"
  by (simp_all add: invocations_def)

lemma retryLoop_run:
  assumes "invocations tr = a" "a \<le> n" "n \<le> maxRetries cfg"
    and "\<forall>i. a \<le> i \<and> i < n \<longrightarrow> isl (operation i)"
    and "\<not> isl (operation n) \<or> n = maxRetries cfg"
  shows "retryLoop cfg operation a le tr
     = (operation n, tr @ concat (map (retryRound cfg) [a..<n]) @ [Invoked])"
  using assms
proof (induction "n - a" arbitrary: a tr le)
  case 0
  then have an: "a = n" by simp
  show ?case
  proof (cases "operation n")
    case (Inr v)
    then show ?thesis using 0 an by (subst retryLoop.simps) simp
  next
    case (Inl err)
    then have "n = maxRetries cfg" using 0(6) by simp
    then show ?thesis using Inl 0 an by (subst retryLoop.simps) simp
  qed
next
  case (Suc d)
  then have lt: "a < n" by simp
  then obtain err where err: "operation a = Inl err" using Suc.prems(4) by (cases "operation a") auto
  let ?tr = "tr @ [Invoked, Warned (a + 1) (retryDelay cfg a), Waited (retryDelay cfg a)]"
  have step: "retryLoop cfg operation a le tr = retryLoop cfg operation (a + 1) err ?tr"
    using lt Suc.prems err by (subst retryLoop.simps) simp
  have "retryLoop cfg operation (a + 1) err ?tr
      = (operation n, ?tr @ concat (map (retryRound cfg) [a + 1..<n]) @ [Invoked])"
    using Suc.hyps Suc.prems lt by (intro Suc.hyps(1)) auto
  moreover have "[a..<n] = a # [a + 1..<n]" using lt by (simp add: upt_conv_Cons)
  ultimately show ?case using step by (simp add: retryRound_def)
qed

lemma retryLoop_bound:
  "invocations (snd (retryLoop cfg operation a le tr)) \<le> invocations tr + (Suc (maxRetries cfg) - a)"
proof (induction cfg operation a le tr rule: retryLoop.induct)
  case (1 cfg operation attempt lastError tr)
  show ?case
  proof (cases "attempt \<le> maxRetries cfg")
    case False
    then show ?thesis by (subst retryLoop.simps) simp
  next
    case True
    show ?thesis
    proof (cases "operation (invocations tr)")
      case (Inr v)
      then show ?thesis using True by (subst retryLoop.simps) simp
    next
      case (Inl err)
      show ?thesis
      proof (cases "attempt = maxRetries cfg")
        case True
        then show ?thesis using Inl by (subst retryLoop.simps) simp
      next
        case False
        then show ?thesis
          using 1[OF True Inl False] True Inl by (subst retryLoop.simps) simp
      qed
    qed
  qed
qed

text \<open>
  Claim C2. For every operation and every retry policy (\<^verbatim>\<open>maxRetries\<close> and \<^verbatim>\<open>delay\<close>
  natural numbers, as the policy is specified): \<^verbatim>\<open>retryOperation\<close> invokes the operation
  at most \<^verbatim>\<open>maxRetries + 1\<close> times; when invocation n is the first to succeed, with n at
  most \<^verbatim>\<open>maxRetries\<close>, it returns that value after n + 1 invocations; after each failed
  attempt i that is retried it warns and pauses for \<^verbatim>\<open>delay\<close> (linear) or
  \<^verbatim>\<open>delay * 2^i\<close> (exponential) before the next invocation; when all
  \<^verbatim>\<open>maxRetries + 1\<close> attempts fail it rethrows what the last attempt threw, unchanged;
  and without a policy argument it uses the configured one.
\<close>

theorem retryOperation_policy:
  "invocations (snd (retryOperation config operation (Some cfg))) \<le> maxRetries cfg + 1
   \<and> (n \<le> maxRetries cfg \<and> (\<forall>i<n. isl (operation i)) \<and> operation n = Inr v \<longrightarrow>
        retryOperation config operation (Some cfg)
          = (Inr v, concat (map (retryRound cfg) [0..<n]) @ [Invoked]))
   \<and> ((\<forall>i\<le>maxRetries cfg. isl (operation i)) \<longrightarrow>
        retryOperation config operation (Some cfg)
          = (operation (maxRetries cfg), concat (map (retryRound cfg) [0..<maxRetries cfg]) @ [Invoked]))
   \<and> retryRound cfg i
        = [Invoked,
           Warned (i + 1) (case backoff cfg of linear \<Rightarrow> delay cfg | exponential \<Rightarrow> delay cfg * 2 ^ i),
           Waited (case backoff cfg of linear \<Rightarrow> delay cfg | exponential \<Rightarrow> delay cfg * 2 ^ i)]
   \<and> retryOperation config operation None = retryOperation config operation (retryConfig config)"
proof (intro conjI impI)
  show "invocations (snd (retryOperation config operation (Some cfg))) \<le> maxRetries cfg + 1"
    using retryLoop_bound[of cfg operation 0 "NonError DUndefined" "[]"]
    by (simp add: retryOperation_def)
next
  assume h: "n \<le> maxRetries cfg \<and> (\<forall>i<n. isl (operation i)) \<and> operation n = Inr v"
  then show "retryOperation config operation (Some cfg)
      = (Inr v, concat (map (retryRound cfg) [0..<n]) @ [Invoked])"
    using retryLoop_run[of "[]" 0 n cfg operation "NonError DUndefined"]
    by (simp add: retryOperation_def)
next
  assume "\<forall>i\<le>maxRetries cfg. isl (operation i)"
  then show "retryOperation config operation (Some cfg)
      = (operation (maxRetries cfg), concat (map (retryRound cfg) [0..<maxRetries cfg]) @ [Invoked])"
    using retryLoop_run[of "[]" 0 "maxRetries cfg" cfg operation "NonError DUndefined"]
    by (simp add: retryOperation_def)
next
  show "retryRound cfg i
      = [Invoked,
         Warned (i + 1) (case backoff cfg of linear \<Rightarrow> delay cfg | exponential \<Rightarrow> delay cfg * 2 ^ i),
         Waited (case backoff cfg of linear \<Rightarrow> delay cfg | exponential \<Rightarrow> delay cfg * 2 ^ i)]"
    by (cases "backoff cfg") (simp_all add: retryRound_def retryDelay_def)
next
  show "retryOperation config operation None = retryOperation config operation (retryConfig config)"
    by (cases "retryConfig config") (simp_all add: retryOperation_def)
qed

theorem retryOperation_policy_witness:
  "retryOperation \<lparr>defaultWaitTimeout = Some 30000, retryConfig = Some exampleRetry\<rparr> flakyOperation
       (Some exampleRetry)
     = (Inr 42, [Invoked, Warned 1 1000, Waited 1000, Invoked, Warned 2 2000, Waited 2000, Invoked])
   \<and> retryOperation \<lparr>defaultWaitTimeout = None, retryConfig = None\<rparr> failingOperation
       (Some \<lparr>maxRetries = 1, delay = 500, backoff = linear\<rparr>)
     = (Inl (Error ''attempt 1''), [Invoked, Warned 1 500, Waited 500, Invoked])"
proof -
  have h: "2 \<le> maxRetries exampleRetry \<and> (\<forall>i<2. isl (flakyOperation i)) \<and> flakyOperation 2 = Inr 42"
    by (simp add: exampleRetry_def flakyOperation_def)
  have u: "[0..<2] = [0, 1]" by (simp add: upt_conv_Cons)
  have a: "retryOperation \<lparr>defaultWaitTimeout = Some 30000, retryConfig = Some exampleRetry\<rparr>
        flakyOperation (Some exampleRetry)
      = (Inr 42, [Invoked, Warned 1 1000, Waited 1000, Invoked, Warned 2 2000, Waited 2000, Invoked])"
    using retryOperation_policy[where cfg = exampleRetry and n = 2 and operation = flakyOperation
        and v = 42 and config = "\<lparr>defaultWaitTimeout = Some 30000, retryConfig = Some exampleRetry\<rparr>"
        and i = 0] h
    by (simp add: u retryRound_def retryDelay_def exampleRetry_def)
  have f: "\<forall>i\<le>maxRetries \<lparr>maxRetries = 1, delay = 500, backoff = linear\<rparr>. isl (failingOperation i)"
    by (simp add: failingOperation_def)
  have b: "retryOperation \<lparr>defaultWaitTimeout = None, retryConfig = None\<rparr> failingOperation
        (Some \<lparr>maxRetries = 1, delay = 500, backoff = linear\<rparr>)
      = (Inl (Error ''attempt 1''), [Invoked, Warned 1 500, Waited 500, Invoked])"
    using retryOperation_policy[where cfg = "\<lparr>maxRetries = 1, delay = 500, backoff = linear\<rparr>"
        and operation = failingOperation and i = 0 and n = 0 and v = 0
        and config = "\<lparr>defaultWaitTimeout = None, retryConfig = None\<rparr>"] f
    by (simp add: retryRound_def retryDelay_def failingOperation_def showNat_digit)
  from a b show ?thesis by simp
qed

end
